theory Spec2Isabelle
  imports Complex_Main "HOL-Library.Multiset"
begin

section \<open>The memory game of \<^verbatim>\<open>assets/js/memory-game.js\<close>\<close>

text \<open>
  The script is one \<^verbatim>\<open>DOMContentLoaded\<close> handler that owns a \<^verbatim>\<open>state\<close> object and
  registers listeners on the page. It is modelled by explicit state passing: one record
  holds the \<^verbatim>\<open>state\<close> object together with the parts of the page and of the browser
  the script reads and writes (card classes, buttons, displays, \<^verbatim>\<open>localStorage\<close>, the
  pending timers). Every function of the script becomes a function on that record.
  \<^verbatim>\<open>Date.now()\<close> is an argument \<open>now\<close> (milliseconds), \<^verbatim>\<open>Math.random()\<close> is a
  stream \<open>rnd\<close> of reals read at a counter kept in the record.
\<close>

subsection \<open>Game data and difficulty settings\<close>

record item =
  name :: string
  icon :: string

text \<open>
  \<^verbatim>\<open>GAME_DATA\<close>: the twelve symbols, each with the markup of its icon. The name of the
  third is written character by character.
\<close>

definition GAME_DATA :: "item list" where
  \<open>GAME_DATA =
    [\<lparr>name = ''Python'', icon = ''<i class="bi bi-filetype-py"></i>''\<rparr>,
     \<lparr>name = ''SQL'', icon = ''<i class="bi bi-database"></i>''\<rparr>,
     \<lparr>name = [CHR ''M'', CHR ''L''], icon = ''<i class="bi bi-robot"></i>''\<rparr>,
     \<lparr>name = ''Tableau'', icon = ''<i class="bi bi-bar-chart-fill"></i>''\<rparr>,
     \<lparr>name = ''Docker'', icon = ''<i class="bi bi-box"></i>''\<rparr>,
     \<lparr>name = ''Git'', icon = ''<i class="bi bi-git"></i>''\<rparr>,
     \<lparr>name = ''Cloud'', icon = ''<i class="bi bi-cloud-fill"></i>''\<rparr>,
     \<lparr>name = ''Excel'', icon = ''<i class="bi bi-file-earmark-excel"></i>''\<rparr>,
     \<lparr>name = ''Code'', icon = ''<i class="bi bi-code-slash"></i>''\<rparr>,
     \<lparr>name = ''Terminal'', icon = ''<i class="bi bi-terminal-fill"></i>''\<rparr>,
     \<lparr>name = ''CPU'', icon = ''<i class="bi bi-cpu-fill"></i>''\<rparr>,
     \<lparr>name = ''Diagram'', icon = ''<i class="bi bi-diagram-3-fill"></i>''\<rparr>]\<close>

text \<open>The keys of \<^verbatim>\<open>DIFFICULTIES\<close>, and the settings stored under each.\<close>

datatype difficulty = Easy | Hard

record profile =
  cols :: nat
  rows :: nat
  pairs :: nat

fun DIFFICULTIES :: "difficulty \<Rightarrow> profile" where
  "DIFFICULTIES Easy = \<lparr>cols = 4, rows = 3, pairs = 6\<rparr>"
| "DIFFICULTIES Hard = \<lparr>cols = 6, rows = 4, pairs = 12\<rparr>"

subsection \<open>Shuffle and deck generation\<close>

text \<open>
  \<^verbatim>\<open>for (let i = arr.length - 1; i > 0; i--) { j = Math.floor(Math.random() * (i + 1)); swap }\<close>.
  The loop counts \<open>i\<close> down; \<open>k\<close> is the number of \<^verbatim>\<open>Math.random()\<close> calls made so far.
  An index \<open>j\<close> outside the array would make JavaScript grow the array with holes; that
  needs a draw outside \<open>[0, 1)\<close>, which \<^verbatim>\<open>Math.random()\<close> never returns, and is the
  result \<open>None\<close> here. The product is taken exactly: rounding the floating-point product
  can change which index a draw selects, never that it lies in \<open>[0, i]\<close>.
\<close>

fun shuffle_loop :: "(nat \<Rightarrow> real) \<Rightarrow> nat \<Rightarrow> nat \<Rightarrow> 'a list \<Rightarrow> ('a list \<times> nat) option" where
  "shuffle_loop rnd k 0 arr = Some (arr, k)"
| "shuffle_loop rnd k (Suc i') arr =
     (let i = Suc i';
          j = \<lfloor>rnd k * (real i + 1)\<rfloor>
      in if 0 \<le> j \<and> nat j < length arr \<and> i < length arr
         then shuffle_loop rnd (Suc k) i' (arr[i := arr ! nat j, nat j := arr ! i])
         else None)"

definition shuffle :: "(nat \<Rightarrow> real) \<Rightarrow> nat \<Rightarrow> 'a list \<Rightarrow> ('a list \<times> nat) option" where
  "shuffle rnd k arr = shuffle_loop rnd k (length arr - 1) arr"

text \<open>
  \<^verbatim>\<open>generateDeck\<close>: shuffle a copy of the pool, take the first \<open>pairs\<close> symbols, put them
  twice in a new array, shuffle that.
\<close>

definition generateDeck :: "(nat \<Rightarrow> real) \<Rightarrow> nat \<Rightarrow> difficulty \<Rightarrow> (item list \<times> nat) option" where
  "generateDeck rnd k d =
     (case shuffle rnd k GAME_DATA of
        None \<Rightarrow> None
      | Some (pool, k1) \<Rightarrow>
          (let chosen = take (pairs (DIFFICULTIES d)) pool
           in shuffle rnd k1 (chosen @ chosen)))"

subsection \<open>Numbers and strings of the host language\<close>

text \<open>
  \<^verbatim>\<open>String(n)\<close> of an integer is its decimal numeral, with a minus sign below zero.
\<close>

definition digit_char :: "nat \<Rightarrow> char" where
  "digit_char d = ''0123456789'' ! d"

function show_nat :: "nat \<Rightarrow> string" where
  "show_nat n = (if n < 10 then [digit_char n] else show_nat (n div 10) @ [digit_char (n mod 10)])"
  by pat_completeness auto
termination
  by (relation "measure id") auto

declare show_nat.simps [simp del]

definition show_int :: "int \<Rightarrow> string" where
  "show_int z = (if z < 0 then CHR ''-'' # show_nat (nat (- z)) else show_nat (nat z))"

text \<open>\<^verbatim>\<open>str.padStart(2, "0")\<close>.\<close>

definition padStart2 :: "string \<Rightarrow> string" where
  "padStart2 str = replicate (2 - length str) CHR ''0'' @ str"

text \<open>
  The remainder operator \<^verbatim>\<open>%\<close> takes the sign of the dividend;
  \<^verbatim>\<open>Math.floor(s / 60)\<close> rounds down, as \<open>div\<close> on \<open>int\<close> does.
\<close>

definition js_rem :: "int \<Rightarrow> int \<Rightarrow> int" where
  "js_rem a b = sgn a * (\<bar>a\<bar> mod \<bar>b\<bar>)"

definition formatTime :: "int \<Rightarrow> string" where
  "formatTime s = padStart2 (show_int (s div 60)) @ '':'' @ padStart2 (show_int (js_rem s 60))"

text \<open>
  A slot of \<^verbatim>\<open>state.bestScores\<close> holds \<^verbatim>\<open>null\<close> or a number; the numbers that occur
  are integers and \<^verbatim>\<open>NaN\<close>.
\<close>

datatype best = Null | Num int | NaN

text \<open>
  \<^verbatim>\<open>Number(str)\<close> on a string, for the two kinds of string whose result needs no
  floating point: up to fifteen decimal digits give that integer exactly; a string with a
  character that occurs in no numeric literal of the language (not a digit, sign, point,
  exponent or radix letter, hexadecimal digit, letter of \<^verbatim>\<open>Infinity\<close>, or white space)
  gives \<^verbatim>\<open>NaN\<close>. On any other string (fractions, exponents, hexadecimal, padding
  with white space, long numerals) the result is \<open>None\<close>: not covered.
\<close>

definition is_digit :: "char \<Rightarrow> bool" where
  "is_digit c = (c \<in> set ''0123456789'')"

definition never_numeric :: "char \<Rightarrow> bool" where
  "never_numeric c = (c \<in> set ''ghjklmpqrsuvwzGHJKLMNPQRSTUVWYZ!#$%&()*,/:;<=>?@[]^_{|}~'')"

definition decimal_value :: "string \<Rightarrow> nat" where
  "decimal_value str = foldl (\<lambda>acc c. 10 * acc + (of_char c - 48)) 0 str"

definition Number_of_string :: "string \<Rightarrow> best option" where
  "Number_of_string str =
     (if str \<noteq> [] \<and> list_all is_digit str \<and> length str \<le> 15
      then Some (Num (int (decimal_value str)))
      else if list_ex never_numeric str then Some NaN
      else None)"

text \<open>\<^verbatim>\<open>moves < best\<close> on a number \<open>moves\<close>: false against \<^verbatim>\<open>NaN\<close>; \<^verbatim>\<open>null\<close> counts as 0.\<close>

fun js_less :: "nat \<Rightarrow> best \<Rightarrow> bool" where
  "js_less m Null = False"
| "js_less m (Num b) = (int m < b)"
| "js_less m NaN = False"

subsection \<open>The state object, the page and the browser\<close>

text \<open>The class list of one \<^verbatim>\<open>.mg-card\<close> element, as far as the script uses it.\<close>

record card_el =
  is_flipped :: bool
  is_matched :: bool

text \<open>
  The fields down to \<open>bestScores\<close> are those of the \<^verbatim>\<open>state\<close> object. A card reference
  (\<^verbatim>\<open>state.firstCard\<close>) is the position of the element on the board, which is also its
  \<^verbatim>\<open>data-index\<close>. \<open>cards\<close> are the card elements of the board in order; the flags
  and texts after it are the class \<^verbatim>\<open>is-disabled\<close> of the board, \<^verbatim>\<open>is-show\<close> of the
  win message, the \<^verbatim>\<open>disabled\<close> attribute of the three buttons, the label of the
  pause button and the text of the three displays. \<open>localStorage\<close>, \<open>intervals\<close>
  (handles of the running \<^verbatim>\<open>setInterval\<close> timers), \<open>timeouts\<close> (the times at which
  the pending \<^verbatim>\<open>setTimeout\<close> callbacks of \<^verbatim>\<open>checkMatch\<close> are due, oldest first)
  and \<open>timerIds\<close> (how many timer handles were handed out) belong to the browser.
  \<open>randomCalls\<close> counts the calls of \<^verbatim>\<open>Math.random()\<close> and \<open>endGameCalls\<close> the
  calls of \<^verbatim>\<open>endGame\<close>; the script reads neither.
\<close>

record page =
  difficulty :: difficulty
  deck :: "item list"
  moves :: nat
  matches :: nat
  firstCard :: "nat option"
  secondCard :: "nat option"
  lockBoard :: bool
  gameStarted :: bool
  paused :: bool
  timerInterval :: "nat option"
  startTime :: int
  elapsedMs :: int
  bestScores :: "difficulty \<Rightarrow> best"
  cards :: "card_el list"
  boardDisabled :: bool
  winShown :: bool
  startBtnDisabled :: bool
  restartBtnDisabled :: bool
  pauseBtnDisabled :: bool
  pauseBtnText :: string
  movesText :: string
  matchesText :: string
  timeText :: string
  localStorage :: "string \<Rightarrow> string option"
  intervals :: "nat list"
  timeouts :: "int list"
  timerIds :: nat
  randomCalls :: nat
  endGameCalls :: nat

text \<open>
  What a handler leaves behind: it returns, or it throws a \<^verbatim>\<open>TypeError\<close> (a property
  read on \<^verbatim>\<open>null\<close> or \<^verbatim>\<open>undefined\<close>) and the page stays as it was at the throw, or a
  shuffle left the array (see \<open>shuffle_loop\<close>).
\<close>

datatype outcome = Normal page | TypeError page | RandomOutOfRange

fun page_of :: "outcome \<Rightarrow> page option" where
  "page_of (Normal s) = Some s"
| "page_of (TypeError s) = Some s"
| "page_of RandomOutOfRange = None"

subsection \<open>Displays and best scores\<close>

text \<open>\<^verbatim>\<open>updateStats\<close>, with both displays present on the page.\<close>

definition updateStats :: "page \<Rightarrow> page" where
  "updateStats s =
     (let n = pairs (DIFFICULTIES (difficulty s))
      in s\<lparr>movesText := show_nat (moves s),
           matchesText := show_nat (matches s) @ ''/'' @ show_nat n\<rparr>)"

fun mode_name :: "difficulty \<Rightarrow> string" where
  "mode_name Easy = ''easy''"
| "mode_name Hard = ''hard''"

definition storage_key :: "difficulty \<Rightarrow> string" where
  "storage_key mode = ''mgBestMoves_'' @ mode_name mode"

text \<open>
  \<^verbatim>\<open>easy ? Number(easy) : null\<close> on the result of \<^verbatim>\<open>localStorage.getItem\<close>: a missing
  key gives \<^verbatim>\<open>null\<close>, and \<^verbatim>\<open>null\<close> and the empty string are falsy.
\<close>

definition load_slot :: "string option \<Rightarrow> best option" where
  "load_slot v =
     (case v of
        None \<Rightarrow> Some Null
      | Some str \<Rightarrow> if str = [] then Some Null else Number_of_string str)"

text \<open>
  \<^verbatim>\<open>loadBestScores\<close>; \<open>None\<close> when a stored string is outside what
  \<open>Number_of_string\<close> covers. The text of the best-score display is a function of
  \<open>bestScores\<close> alone and is left out.
\<close>

definition loadBestScores :: "page \<Rightarrow> page option" where
  "loadBestScores s =
     (case load_slot (localStorage s (storage_key Easy)) of
        None \<Rightarrow> None
      | Some e \<Rightarrow>
          (case load_slot (localStorage s (storage_key Hard)) of
             None \<Rightarrow> None
           | Some h \<Rightarrow> Some (s\<lparr>bestScores := (bestScores s)(Easy := e, Hard := h)\<rparr>)))"

definition maybeUpdateBestScore :: "page \<Rightarrow> page" where
  "maybeUpdateBestScore s =
     (let mode = difficulty s;
          best = bestScores s mode
      in if best = Null \<or> js_less (moves s) best
         then s\<lparr>bestScores := (bestScores s)(mode := Num (int (moves s))),
                localStorage := (localStorage s)(storage_key mode \<mapsto> show_nat (moves s))\<rparr>
         else s)"

subsection \<open>Timer\<close>

definition tickTimer :: "int \<Rightarrow> page \<Rightarrow> page" where
  "tickTimer now s =
     (let totalMs = elapsedMs s + (now - startTime s)
      in s\<lparr>timeText := formatTime (totalMs div 1000)\<rparr>)"

text \<open>\<^verbatim>\<open>setInterval\<close> hands out a fresh handle, which is a positive integer.\<close>

definition startTimer :: "int \<Rightarrow> page \<Rightarrow> page" where
  "startTimer now s =
     (let s1 = tickTimer now (s\<lparr>startTime := now\<rparr>);
          h = Suc (timerIds s1)
      in s1\<lparr>timerInterval := Some h, intervals := intervals s1 @ [h], timerIds := h\<rparr>)"

text \<open>\<^verbatim>\<open>!state.timerInterval\<close>: \<^verbatim>\<open>null\<close> and 0 are falsy.\<close>

fun no_handle :: "nat option \<Rightarrow> bool" where
  "no_handle None = True"
| "no_handle (Some h) = (h = 0)"

definition stopTimer :: "int \<Rightarrow> page \<Rightarrow> page" where
  "stopTimer now s =
     (if no_handle (timerInterval s) then s
      else s\<lparr>intervals := removeAll (the (timerInterval s)) (intervals s),
             timerInterval := None,
             elapsedMs := elapsedMs s + (now - startTime s)\<rparr>)"

definition resetTimer :: "int \<Rightarrow> page \<Rightarrow> page" where
  "resetTimer now s = (stopTimer now s)\<lparr>elapsedMs := 0, timeText := ''00:00''\<rparr>"

definition hideWin :: "page \<Rightarrow> page" where
  "hideWin s = s\<lparr>winShown := False\<rparr>"

definition showWin :: "page \<Rightarrow> page" where
  "showWin s = s\<lparr>winShown := True\<rparr>"

subsection \<open>Board, end of game, match checking\<close>

text \<open>
  \<^verbatim>\<open>renderBoard\<close> replaces the content of the board by one new card element for each
  item of the deck, with neither class set. The grid style it also sets is left out.
\<close>

definition renderBoard :: "page \<Rightarrow> page" where
  "renderBoard s = s\<lparr>cards := map (\<lambda>x. \<lparr>is_flipped = False, is_matched = False\<rparr>) (deck s)\<rparr>"

definition resetFlipState :: "page \<Rightarrow> page" where
  "resetFlipState s = s\<lparr>firstCard := None, secondCard := None, lockBoard := False\<rparr>"

definition endGame :: "int \<Rightarrow> page \<Rightarrow> page" where
  "endGame now s =
     (let s1 = stopTimer now (s\<lparr>endGameCalls := Suc (endGameCalls s)\<rparr>);
          s2 = s1\<lparr>gameStarted := False, paused := False\<rparr>;
          s3 = s2\<lparr>boardDisabled := True, pauseBtnDisabled := True,
                  pauseBtnText := ''Pause'', startBtnDisabled := False\<rparr>
      in maybeUpdateBestScore (showWin s3))"

text \<open>\<^verbatim>\<open>card.classList.add\<close> and \<^verbatim>\<open>remove\<close> on the card element at a position.\<close>

definition set_flipped :: "nat \<Rightarrow> bool \<Rightarrow> page \<Rightarrow> page" where
  "set_flipped i b s = s\<lparr>cards := (cards s)[i := (cards s ! i)\<lparr>is_flipped := b\<rparr>]\<rparr>"

definition set_matched :: "nat \<Rightarrow> page \<Rightarrow> page" where
  "set_matched i s = s\<lparr>cards := (cards s)[i := (cards s ! i)\<lparr>is_matched := True\<rparr>]\<rparr>"

text \<open>
  \<^verbatim>\<open>checkMatch\<close>. Reading \<^verbatim>\<open>dataset\<close> of an empty slot, or \<^verbatim>\<open>name\<close> of a deck entry
  that is not there, throws. On a mismatch the callback is handed to \<^verbatim>\<open>setTimeout\<close>
  with a delay of 900: it is due 900 ms after \<open>now\<close>.
\<close>

definition checkMatch :: "int \<Rightarrow> page \<Rightarrow> outcome" where
  "checkMatch now s =
     (case firstCard s of
        None \<Rightarrow> TypeError s
      | Some i1 \<Rightarrow>
          (case secondCard s of
             None \<Rightarrow> TypeError s
           | Some i2 \<Rightarrow>
               if \<not> (i1 < length (deck s) \<and> i2 < length (deck s)) then TypeError s
               else if name (deck s ! i1) = name (deck s ! i2) then
                 (let s1 = s\<lparr>matches := matches s + 1\<rparr>;
                      s2 = set_matched i2 (set_matched i1 s1);
                      s3 = resetFlipState (updateStats s2)
                  in if matches s3 = pairs (DIFFICULTIES (difficulty s3))
                     then Normal (endGame now s3) else Normal s3)
               else
                 Normal (s\<lparr>lockBoard := True,
                           timeouts := timeouts s @ [now + 900],
                           timerIds := Suc (timerIds s)\<rparr>)))"

text \<open>
  The callback of that \<^verbatim>\<open>setTimeout\<close>. It reads \<^verbatim>\<open>state.firstCard\<close> and
  \<^verbatim>\<open>state.secondCard\<close> when it runs, not when it was created.
\<close>

definition flipBack :: "page \<Rightarrow> outcome" where
  "flipBack s =
     (case firstCard s of
        None \<Rightarrow> TypeError s
      | Some a \<Rightarrow>
          (let s1 = set_flipped a False s
           in case secondCard s1 of
                None \<Rightarrow> TypeError s1
              | Some b \<Rightarrow> Normal (resetFlipState (set_flipped b False s1))))"

text \<open>
  \<^verbatim>\<open>flipCard\<close>, on the card element at position \<open>i\<close>. The listener only passes
  elements of the board; a position with no element stands for a value without
  \<^verbatim>\<open>classList\<close>.
\<close>

definition flipCard :: "int \<Rightarrow> nat \<Rightarrow> page \<Rightarrow> outcome" where
  "flipCard now i s =
     (if \<not> gameStarted s then Normal s
      else if paused s then Normal s
      else if lockBoard s then Normal s
      else if \<not> i < length (cards s) then TypeError s
      else if is_matched (cards s ! i) then Normal s
      else if is_flipped (cards s ! i) then Normal s
      else
        (let s1 = set_flipped i True s
         in case firstCard s1 of
              None \<Rightarrow> Normal (s1\<lparr>firstCard := Some i\<rparr>)
            | Some a \<Rightarrow>
                checkMatch now (updateStats (s1\<lparr>secondCard := Some i, moves := moves s1 + 1\<rparr>))))"

text \<open>
  The click listener of the board: \<^verbatim>\<open>e.target.closest(".mg-card")\<close> is the card at
  position \<open>i\<close>, or nothing when the click hit no card.
\<close>

definition boardClick :: "int \<Rightarrow> nat \<Rightarrow> page \<Rightarrow> outcome" where
  "boardClick now i s =
     (if \<not> i < length (cards s) then Normal s
      else if boardDisabled s then Normal s
      else flipCard now i s)"

subsection \<open>Preparing, starting, pausing\<close>

definition prepareGame :: "(nat \<Rightarrow> real) \<Rightarrow> int \<Rightarrow> page \<Rightarrow> outcome" where
  "prepareGame rnd now s =
     (let s1 = resetTimer now (hideWin s);
          s2 = s1\<lparr>moves := 0, matches := 0, gameStarted := False, paused := False\<rparr>;
          s3 = updateStats (resetFlipState s2)
      in case generateDeck rnd (randomCalls s3) (difficulty s3) of
           None \<Rightarrow> RandomOutOfRange
         | Some (d, k) \<Rightarrow>
             (let s4 = renderBoard (s3\<lparr>deck := d, randomCalls := k\<rparr>)
              in Normal (s4\<lparr>boardDisabled := True, startBtnDisabled := False,
                           restartBtnDisabled := True, pauseBtnDisabled := True,
                           pauseBtnText := ''Pause''\<rparr>)))"

definition startGame :: "(nat \<Rightarrow> real) \<Rightarrow> int \<Rightarrow> page \<Rightarrow> outcome" where
  "startGame rnd now s =
     (let s1 = resetTimer now (hideWin s);
          s2 = s1\<lparr>moves := 0, matches := 0, gameStarted := True, paused := False\<rparr>;
          s3 = updateStats (resetFlipState s2)
      in case generateDeck rnd (randomCalls s3) (difficulty s3) of
           None \<Rightarrow> RandomOutOfRange
         | Some (d, k) \<Rightarrow>
             (let s4 = renderBoard (s3\<lparr>deck := d, randomCalls := k\<rparr>);
                  s5 = s4\<lparr>boardDisabled := False, startBtnDisabled := True,
                          restartBtnDisabled := False, pauseBtnDisabled := False,
                          pauseBtnText := ''Pause''\<rparr>
              in Normal (startTimer now s5)))"

definition pauseGame :: "int \<Rightarrow> page \<Rightarrow> page" where
  "pauseGame now s =
     (if \<not> gameStarted s \<or> paused s then s
      else (stopTimer now (s\<lparr>paused := True\<rparr>))\<lparr>boardDisabled := True, pauseBtnText := ''Resume''\<rparr>)"

definition resumeGame :: "int \<Rightarrow> page \<Rightarrow> page" where
  "resumeGame now s =
     (if \<not> gameStarted s \<or> \<not> paused s then s
      else startTimer now (s\<lparr>paused := False, boardDisabled := False, pauseBtnText := ''Pause''\<rparr>))"

subsection \<open>Events\<close>

text \<open>
  What the browser can deliver to the script: a click on the board at a card position, on
  one of the three buttons (a disabled button delivers no click), a change of the
  difficulty selector, the oldest pending timeout once it is due, and a tick of a running
  interval.
\<close>

datatype event =
    CardClick nat
  | StartClick
  | RestartClick
  | PauseClick
  | DifficultyChange difficulty
  | TimeoutFires
  | IntervalTick

fun step :: "(nat \<Rightarrow> real) \<Rightarrow> int \<Rightarrow> event \<Rightarrow> page \<Rightarrow> outcome" where
  "step rnd now (CardClick i) s = boardClick now i s"
| "step rnd now StartClick s =
     (if startBtnDisabled s then Normal s else startGame rnd now s)"
| "step rnd now RestartClick s =
     (if restartBtnDisabled s then Normal s else startGame rnd now s)"
| "step rnd now PauseClick s =
     (if pauseBtnDisabled s then Normal s
      else if paused s then Normal (resumeGame now s) else Normal (pauseGame now s))"
| "step rnd now (DifficultyChange d) s = prepareGame rnd now (s\<lparr>difficulty := d\<rparr>)"
| "step rnd now TimeoutFires s =
     (case timeouts s of
        [] \<Rightarrow> Normal s
      | t # ts \<Rightarrow> if t \<le> now then flipBack (s\<lparr>timeouts := ts\<rparr>) else Normal s)"
| "step rnd now IntervalTick s =
     (if intervals s = [] then Normal s else Normal (tickTimer now s))"

text \<open>
  A run of timed events. An exception thrown in a handler ends that handler only; the
  page goes on from the state at the throw.
\<close>

fun run :: "(nat \<Rightarrow> real) \<Rightarrow> (int \<times> event) list \<Rightarrow> page \<Rightarrow> page option" where
  "run rnd [] s = Some s"
| "run rnd ((now, e) # es) s =
     (case page_of (step rnd now e s) of
        None \<Rightarrow> None
      | Some s' \<Rightarrow> run rnd es s')"

text \<open>
  The script at load time: the \<^verbatim>\<open>state\<close> literal with the selector's value \<open>d\<close>, then
  \<^verbatim>\<open>loadBestScores()\<close> and \<^verbatim>\<open>prepareGame()\<close>. Every part of the page the script goes
  on to read is written by \<^verbatim>\<open>prepareGame\<close> first; the pause button starts disabled.
\<close>

definition initial_page :: "difficulty \<Rightarrow> (string \<Rightarrow> string option) \<Rightarrow> page" where
  "initial_page d store =
     \<lparr>difficulty = d, deck = [], moves = 0, matches = 0,
      firstCard = None, secondCard = None, lockBoard = False,
      gameStarted = False, paused = False,
      timerInterval = None, startTime = 0, elapsedMs = 0,
      bestScores = (\<lambda>m. Null),
      cards = [], boardDisabled = False, winShown = False,
      startBtnDisabled = False, restartBtnDisabled = False, pauseBtnDisabled = True,
      pauseBtnText = ''Pause'', movesText = [], matchesText = [], timeText = [],
      localStorage = store, intervals = [], timeouts = [], timerIds = 0,
      randomCalls = 0, endGameCalls = 0\<rparr>"

definition init :: "(nat \<Rightarrow> real) \<Rightarrow> int \<Rightarrow> difficulty \<Rightarrow> (string \<Rightarrow> string option) \<Rightarrow> page option" where
  "init rnd now d store =
     (case loadBestScores (initial_page d store) of
        None \<Rightarrow> None
      | Some s \<Rightarrow> page_of (prepareGame rnd now s))"

subsection \<open>Notions used to state the properties\<close>

text \<open>The contract of \<^verbatim>\<open>Math.random()\<close>: every draw lies in \<open>[0, 1)\<close>.\<close>

definition random_ok :: "(nat \<Rightarrow> real) \<Rightarrow> bool" where
  "random_ok rnd = (\<forall>n. 0 \<le> rnd n \<and> rnd n < 1)"

text \<open>
  The shuffle as the specification words it: for index \<open>i\<close> from the last position down
  to 1, swap position \<open>i\<close> with a drawn index. \<open>apply_swaps\<close> performs a list of swaps
  in order; \<open>fisher_yates_swaps\<close> lists the pair \<open>(i, j)\<close> of each round, where the
  \<open>m\<close>-th round has \<open>i = n - 1 - m\<close> and draws \<open>j\<close> from \<open>i + 1 = n - m\<close> values.
\<close>

fun apply_swaps :: "(nat \<times> nat) list \<Rightarrow> 'a list \<Rightarrow> 'a list" where
  "apply_swaps [] arr = arr"
| "apply_swaps ((i, j) # ps) arr = apply_swaps ps (arr[i := arr ! j, j := arr ! i])"

definition fisher_yates_swaps :: "(nat \<Rightarrow> real) \<Rightarrow> nat \<Rightarrow> nat \<Rightarrow> (nat \<times> nat) list" where
  "fisher_yates_swaps rnd k n =
     map (\<lambda>m. (n - 1 - m, nat \<lfloor>rnd (k + m) * real (n - m)\<rfloor>)) [0..<n - 1]"

text \<open>A stream of draws to run the program on.\<close>

definition sample_draws :: "nat \<Rightarrow> real" where
  "sample_draws n = (if even n then 1 / 3 else 7 / 8)"

text \<open>
  The timer and the flags agree: an interval runs, under a positive handle that
  \<^verbatim>\<open>state.timerInterval\<close> holds, exactly while the game is started and not paused.
\<close>

definition timer_ok :: "page \<Rightarrow> bool" where
  "timer_ok s =
     (if gameStarted s \<and> \<not> paused s
      then (case timerInterval s of None \<Rightarrow> False | Some h \<Rightarrow> 0 < h \<and> intervals s = [h])
      else timerInterval s = None \<and> intervals s = [])"


text \<open>
  The slots and the deck agree with the board: there is one card element for each entry
  of the deck, and a filled slot refers to a card element of the board.
\<close>

definition board_ok :: "page \<Rightarrow> bool" where
  "board_ok s =
     (length (cards s) = length (deck s)
      \<and> (case firstCard s of None \<Rightarrow> True | Some a \<Rightarrow> a < length (cards s))
      \<and> (case secondCard s of None \<Rightarrow> True | Some b \<Rightarrow> b < length (cards s)))"

text \<open>
  The pending callbacks agree with the lock: while the board is locked exactly one
  callback is pending and both slots are filled; while it is not, none is pending.
\<close>

definition pending_ok :: "page \<Rightarrow> bool" where
  "pending_ok s =
     (if lockBoard s
      then length (timeouts s) = 1 \<and> firstCard s \<noteq> None \<and> secondCard s \<noteq> None
      else timeouts s = [])"

text \<open>
  Pages to run the program on: the page after loading with an empty store and the
  selector on easy, and the same page after a click on the start button.
\<close>

definition sample_loaded :: page where
  "sample_loaded = the (init sample_draws 1000 Easy Map.empty)"

definition sample_started :: page where
  "sample_started = the (run sample_draws [(2000, StartClick)] sample_loaded)"

text \<open>
  The events that begin a new game or prepare one: both buttons call \<^verbatim>\<open>startGame\<close>, a
  change of difficulty calls \<^verbatim>\<open>prepareGame\<close>.
\<close>

fun is_reset :: "event \<Rightarrow> bool" where
  "is_reset StartClick = True"
| "is_reset RestartClick = True"
| "is_reset (DifficultyChange d) = True"
| "is_reset e = False"

text \<open>The pair count of the difficulty in force.\<close>

definition pairCount :: "page \<Rightarrow> nat" where
  "pairCount s = pairs (DIFFICULTIES (difficulty s))"

text \<open>
  What one event may do to the match count, the started flag and the number of calls of
  \<^verbatim>\<open>endGame\<close>: nothing, or, in a started game, one more match, with \<^verbatim>\<open>endGame\<close>
  called once exactly when the count thereby reaches the pair count.
\<close>

definition game_step :: "page \<Rightarrow> page \<Rightarrow> bool" where
  "game_step s s' =
     (difficulty s' = difficulty s \<and>
      (if gameStarted s \<and> matches s' = Suc (matches s)
       then (if matches s' = pairCount s
             then \<not> gameStarted s' \<and> endGameCalls s' = Suc (endGameCalls s)
             else gameStarted s' \<and> endGameCalls s' = endGameCalls s)
       else matches s' = matches s \<and> endGameCalls s' = endGameCalls s
            \<and> gameStarted s' = gameStarted s))"

text \<open>
  The state of one game whose start found \<open>c\<close> earlier calls of \<^verbatim>\<open>endGame\<close>: either
  it is running with pairs still to find and no further call, or it is over with all pairs
  found and one call.
\<close>

definition one_game :: "nat \<Rightarrow> page \<Rightarrow> bool" where
  "one_game c s =
     (if gameStarted s then matches s < pairCount s \<and> endGameCalls s = c
      else matches s = pairCount s \<and> endGameCalls s = Suc c)"

text \<open>
  More sample runs on the deck that \<open>sample_draws\<close> deals (pairs at positions 0 and 1,
  2 and 11, 3 and 10, 4 and 7, 5 and 8, 6 and 9): the clicks that find every pair; the
  page with card 0 face-up; that page as \<^verbatim>\<open>flipCard\<close> hands it to \<^verbatim>\<open>checkMatch\<close>
  after a click on card \<open>b\<close>; the started game paused at 5000; a store whose easy entry
  is not a number; and a restart 300 ms after a mismatch.
\<close>

definition winning_clicks :: "(int \<times> event) list" where
  "winning_clicks =
     [(3000, CardClick 0), (3100, CardClick 1), (3200, CardClick 2), (3300, CardClick 11),
      (3400, CardClick 3), (3500, CardClick 10), (3600, CardClick 4), (3700, CardClick 7),
      (3800, CardClick 5), (3900, CardClick 8), (4000, CardClick 6), (4100, CardClick 9)]"

definition sample_finished :: page where
  "sample_finished = the (run sample_draws winning_clicks sample_started)"

definition sample_one_up :: page where
  "sample_one_up = the (run sample_draws [(3000, CardClick 0)] sample_started)"

definition sample_second :: "nat \<Rightarrow> page" where
  "sample_second b =
     updateStats ((set_flipped b True sample_one_up)\<lparr>secondCard := Some b,
        moves := moves sample_one_up + 1\<rparr>)"

definition sample_paused :: page where
  "sample_paused = pauseGame 5000 sample_started"

definition malformed_store :: "string \<Rightarrow> string option" where
  "malformed_store = Map.empty(''mgBestMoves_easy'' \<mapsto> ''six'')"

definition restart_in_delay :: "(int \<times> event) list" where
  "restart_in_delay =
     [(2000, StartClick), (3000, CardClick 0), (3500, CardClick 2), (3800, RestartClick)]"


section \<open>Properties\<close>

subsection \<open>Fields that each function leaves alone, and what it writes\<close>

lemma updateStats_fields [simp]:
  "difficulty (updateStats s) = difficulty s"
  "deck (updateStats s) = deck s"
  "moves (updateStats s) = moves s"
  "matches (updateStats s) = matches s"
  "firstCard (updateStats s) = firstCard s"
  "secondCard (updateStats s) = secondCard s"
  "lockBoard (updateStats s) = lockBoard s"
  "gameStarted (updateStats s) = gameStarted s"
  "paused (updateStats s) = paused s"
  "timerInterval (updateStats s) = timerInterval s"
  "startTime (updateStats s) = startTime s"
  "elapsedMs (updateStats s) = elapsedMs s"
  "bestScores (updateStats s) = bestScores s"
  "cards (updateStats s) = cards s"
  "boardDisabled (updateStats s) = boardDisabled s"
  "winShown (updateStats s) = winShown s"
  "startBtnDisabled (updateStats s) = startBtnDisabled s"
  "restartBtnDisabled (updateStats s) = restartBtnDisabled s"
  "pauseBtnDisabled (updateStats s) = pauseBtnDisabled s"
  "pauseBtnText (updateStats s) = pauseBtnText s"
  "timeText (updateStats s) = timeText s"
  "localStorage (updateStats s) = localStorage s"
  "intervals (updateStats s) = intervals s"
  "timeouts (updateStats s) = timeouts s"
  "timerIds (updateStats s) = timerIds s"
  "randomCalls (updateStats s) = randomCalls s"
  "endGameCalls (updateStats s) = endGameCalls s"
  by (simp_all add: updateStats_def Let_def)

lemma maybeUpdateBestScore_fields [simp]:
  "difficulty (maybeUpdateBestScore s) = difficulty s"
  "deck (maybeUpdateBestScore s) = deck s"
  "moves (maybeUpdateBestScore s) = moves s"
  "matches (maybeUpdateBestScore s) = matches s"
  "firstCard (maybeUpdateBestScore s) = firstCard s"
  "secondCard (maybeUpdateBestScore s) = secondCard s"
  "lockBoard (maybeUpdateBestScore s) = lockBoard s"
  "gameStarted (maybeUpdateBestScore s) = gameStarted s"
  "paused (maybeUpdateBestScore s) = paused s"
  "timerInterval (maybeUpdateBestScore s) = timerInterval s"
  "startTime (maybeUpdateBestScore s) = startTime s"
  "elapsedMs (maybeUpdateBestScore s) = elapsedMs s"
  "cards (maybeUpdateBestScore s) = cards s"
  "boardDisabled (maybeUpdateBestScore s) = boardDisabled s"
  "winShown (maybeUpdateBestScore s) = winShown s"
  "startBtnDisabled (maybeUpdateBestScore s) = startBtnDisabled s"
  "restartBtnDisabled (maybeUpdateBestScore s) = restartBtnDisabled s"
  "pauseBtnDisabled (maybeUpdateBestScore s) = pauseBtnDisabled s"
  "pauseBtnText (maybeUpdateBestScore s) = pauseBtnText s"
  "movesText (maybeUpdateBestScore s) = movesText s"
  "matchesText (maybeUpdateBestScore s) = matchesText s"
  "timeText (maybeUpdateBestScore s) = timeText s"
  "intervals (maybeUpdateBestScore s) = intervals s"
  "timeouts (maybeUpdateBestScore s) = timeouts s"
  "timerIds (maybeUpdateBestScore s) = timerIds s"
  "randomCalls (maybeUpdateBestScore s) = randomCalls s"
  "endGameCalls (maybeUpdateBestScore s) = endGameCalls s"
  by (simp_all add: maybeUpdateBestScore_def Let_def)

lemma tickTimer_fields [simp]:
  "difficulty (tickTimer now s) = difficulty s"
  "deck (tickTimer now s) = deck s"
  "moves (tickTimer now s) = moves s"
  "matches (tickTimer now s) = matches s"
  "firstCard (tickTimer now s) = firstCard s"
  "secondCard (tickTimer now s) = secondCard s"
  "lockBoard (tickTimer now s) = lockBoard s"
  "gameStarted (tickTimer now s) = gameStarted s"
  "paused (tickTimer now s) = paused s"
  "timerInterval (tickTimer now s) = timerInterval s"
  "startTime (tickTimer now s) = startTime s"
  "elapsedMs (tickTimer now s) = elapsedMs s"
  "bestScores (tickTimer now s) = bestScores s"
  "cards (tickTimer now s) = cards s"
  "boardDisabled (tickTimer now s) = boardDisabled s"
  "winShown (tickTimer now s) = winShown s"
  "startBtnDisabled (tickTimer now s) = startBtnDisabled s"
  "restartBtnDisabled (tickTimer now s) = restartBtnDisabled s"
  "pauseBtnDisabled (tickTimer now s) = pauseBtnDisabled s"
  "pauseBtnText (tickTimer now s) = pauseBtnText s"
  "movesText (tickTimer now s) = movesText s"
  "matchesText (tickTimer now s) = matchesText s"
  "localStorage (tickTimer now s) = localStorage s"
  "intervals (tickTimer now s) = intervals s"
  "timeouts (tickTimer now s) = timeouts s"
  "timerIds (tickTimer now s) = timerIds s"
  "randomCalls (tickTimer now s) = randomCalls s"
  "endGameCalls (tickTimer now s) = endGameCalls s"
  by (simp_all add: tickTimer_def Let_def)

lemma startTimer_fields [simp]:
  "difficulty (startTimer now s) = difficulty s"
  "deck (startTimer now s) = deck s"
  "moves (startTimer now s) = moves s"
  "matches (startTimer now s) = matches s"
  "firstCard (startTimer now s) = firstCard s"
  "secondCard (startTimer now s) = secondCard s"
  "lockBoard (startTimer now s) = lockBoard s"
  "gameStarted (startTimer now s) = gameStarted s"
  "paused (startTimer now s) = paused s"
  "elapsedMs (startTimer now s) = elapsedMs s"
  "bestScores (startTimer now s) = bestScores s"
  "cards (startTimer now s) = cards s"
  "boardDisabled (startTimer now s) = boardDisabled s"
  "winShown (startTimer now s) = winShown s"
  "startBtnDisabled (startTimer now s) = startBtnDisabled s"
  "restartBtnDisabled (startTimer now s) = restartBtnDisabled s"
  "pauseBtnDisabled (startTimer now s) = pauseBtnDisabled s"
  "pauseBtnText (startTimer now s) = pauseBtnText s"
  "movesText (startTimer now s) = movesText s"
  "matchesText (startTimer now s) = matchesText s"
  "localStorage (startTimer now s) = localStorage s"
  "timeouts (startTimer now s) = timeouts s"
  "randomCalls (startTimer now s) = randomCalls s"
  "endGameCalls (startTimer now s) = endGameCalls s"
  by (simp_all add: startTimer_def tickTimer_def Let_def)

lemma stopTimer_fields [simp]:
  "difficulty (stopTimer now s) = difficulty s"
  "deck (stopTimer now s) = deck s"
  "moves (stopTimer now s) = moves s"
  "matches (stopTimer now s) = matches s"
  "firstCard (stopTimer now s) = firstCard s"
  "secondCard (stopTimer now s) = secondCard s"
  "lockBoard (stopTimer now s) = lockBoard s"
  "gameStarted (stopTimer now s) = gameStarted s"
  "paused (stopTimer now s) = paused s"
  "startTime (stopTimer now s) = startTime s"
  "bestScores (stopTimer now s) = bestScores s"
  "cards (stopTimer now s) = cards s"
  "boardDisabled (stopTimer now s) = boardDisabled s"
  "winShown (stopTimer now s) = winShown s"
  "startBtnDisabled (stopTimer now s) = startBtnDisabled s"
  "restartBtnDisabled (stopTimer now s) = restartBtnDisabled s"
  "pauseBtnDisabled (stopTimer now s) = pauseBtnDisabled s"
  "pauseBtnText (stopTimer now s) = pauseBtnText s"
  "movesText (stopTimer now s) = movesText s"
  "matchesText (stopTimer now s) = matchesText s"
  "timeText (stopTimer now s) = timeText s"
  "localStorage (stopTimer now s) = localStorage s"
  "timeouts (stopTimer now s) = timeouts s"
  "timerIds (stopTimer now s) = timerIds s"
  "randomCalls (stopTimer now s) = randomCalls s"
  "endGameCalls (stopTimer now s) = endGameCalls s"
  by (simp_all add: stopTimer_def)

lemma resetTimer_fields [simp]:
  "difficulty (resetTimer now s) = difficulty s"
  "deck (resetTimer now s) = deck s"
  "moves (resetTimer now s) = moves s"
  "matches (resetTimer now s) = matches s"
  "firstCard (resetTimer now s) = firstCard s"
  "secondCard (resetTimer now s) = secondCard s"
  "lockBoard (resetTimer now s) = lockBoard s"
  "gameStarted (resetTimer now s) = gameStarted s"
  "paused (resetTimer now s) = paused s"
  "startTime (resetTimer now s) = startTime s"
  "bestScores (resetTimer now s) = bestScores s"
  "cards (resetTimer now s) = cards s"
  "boardDisabled (resetTimer now s) = boardDisabled s"
  "winShown (resetTimer now s) = winShown s"
  "startBtnDisabled (resetTimer now s) = startBtnDisabled s"
  "restartBtnDisabled (resetTimer now s) = restartBtnDisabled s"
  "pauseBtnDisabled (resetTimer now s) = pauseBtnDisabled s"
  "pauseBtnText (resetTimer now s) = pauseBtnText s"
  "movesText (resetTimer now s) = movesText s"
  "matchesText (resetTimer now s) = matchesText s"
  "localStorage (resetTimer now s) = localStorage s"
  "timeouts (resetTimer now s) = timeouts s"
  "timerIds (resetTimer now s) = timerIds s"
  "randomCalls (resetTimer now s) = randomCalls s"
  "endGameCalls (resetTimer now s) = endGameCalls s"
  by (simp_all add: resetTimer_def stopTimer_def)

lemma hideWin_fields [simp]:
  "difficulty (hideWin s) = difficulty s"
  "deck (hideWin s) = deck s"
  "moves (hideWin s) = moves s"
  "matches (hideWin s) = matches s"
  "firstCard (hideWin s) = firstCard s"
  "secondCard (hideWin s) = secondCard s"
  "lockBoard (hideWin s) = lockBoard s"
  "gameStarted (hideWin s) = gameStarted s"
  "paused (hideWin s) = paused s"
  "timerInterval (hideWin s) = timerInterval s"
  "startTime (hideWin s) = startTime s"
  "elapsedMs (hideWin s) = elapsedMs s"
  "bestScores (hideWin s) = bestScores s"
  "cards (hideWin s) = cards s"
  "boardDisabled (hideWin s) = boardDisabled s"
  "startBtnDisabled (hideWin s) = startBtnDisabled s"
  "restartBtnDisabled (hideWin s) = restartBtnDisabled s"
  "pauseBtnDisabled (hideWin s) = pauseBtnDisabled s"
  "pauseBtnText (hideWin s) = pauseBtnText s"
  "movesText (hideWin s) = movesText s"
  "matchesText (hideWin s) = matchesText s"
  "timeText (hideWin s) = timeText s"
  "localStorage (hideWin s) = localStorage s"
  "intervals (hideWin s) = intervals s"
  "timeouts (hideWin s) = timeouts s"
  "timerIds (hideWin s) = timerIds s"
  "randomCalls (hideWin s) = randomCalls s"
  "endGameCalls (hideWin s) = endGameCalls s"
  by (simp_all add: hideWin_def)

lemma showWin_fields [simp]:
  "difficulty (showWin s) = difficulty s"
  "deck (showWin s) = deck s"
  "moves (showWin s) = moves s"
  "matches (showWin s) = matches s"
  "firstCard (showWin s) = firstCard s"
  "secondCard (showWin s) = secondCard s"
  "lockBoard (showWin s) = lockBoard s"
  "gameStarted (showWin s) = gameStarted s"
  "paused (showWin s) = paused s"
  "timerInterval (showWin s) = timerInterval s"
  "startTime (showWin s) = startTime s"
  "elapsedMs (showWin s) = elapsedMs s"
  "bestScores (showWin s) = bestScores s"
  "cards (showWin s) = cards s"
  "boardDisabled (showWin s) = boardDisabled s"
  "startBtnDisabled (showWin s) = startBtnDisabled s"
  "restartBtnDisabled (showWin s) = restartBtnDisabled s"
  "pauseBtnDisabled (showWin s) = pauseBtnDisabled s"
  "pauseBtnText (showWin s) = pauseBtnText s"
  "movesText (showWin s) = movesText s"
  "matchesText (showWin s) = matchesText s"
  "timeText (showWin s) = timeText s"
  "localStorage (showWin s) = localStorage s"
  "intervals (showWin s) = intervals s"
  "timeouts (showWin s) = timeouts s"
  "timerIds (showWin s) = timerIds s"
  "randomCalls (showWin s) = randomCalls s"
  "endGameCalls (showWin s) = endGameCalls s"
  by (simp_all add: showWin_def)

lemma renderBoard_fields [simp]:
  "difficulty (renderBoard s) = difficulty s"
  "deck (renderBoard s) = deck s"
  "moves (renderBoard s) = moves s"
  "matches (renderBoard s) = matches s"
  "firstCard (renderBoard s) = firstCard s"
  "secondCard (renderBoard s) = secondCard s"
  "lockBoard (renderBoard s) = lockBoard s"
  "gameStarted (renderBoard s) = gameStarted s"
  "paused (renderBoard s) = paused s"
  "timerInterval (renderBoard s) = timerInterval s"
  "startTime (renderBoard s) = startTime s"
  "elapsedMs (renderBoard s) = elapsedMs s"
  "bestScores (renderBoard s) = bestScores s"
  "boardDisabled (renderBoard s) = boardDisabled s"
  "winShown (renderBoard s) = winShown s"
  "startBtnDisabled (renderBoard s) = startBtnDisabled s"
  "restartBtnDisabled (renderBoard s) = restartBtnDisabled s"
  "pauseBtnDisabled (renderBoard s) = pauseBtnDisabled s"
  "pauseBtnText (renderBoard s) = pauseBtnText s"
  "movesText (renderBoard s) = movesText s"
  "matchesText (renderBoard s) = matchesText s"
  "timeText (renderBoard s) = timeText s"
  "localStorage (renderBoard s) = localStorage s"
  "intervals (renderBoard s) = intervals s"
  "timeouts (renderBoard s) = timeouts s"
  "timerIds (renderBoard s) = timerIds s"
  "randomCalls (renderBoard s) = randomCalls s"
  "endGameCalls (renderBoard s) = endGameCalls s"
  by (simp_all add: renderBoard_def)

lemma resetFlipState_fields [simp]:
  "difficulty (resetFlipState s) = difficulty s"
  "deck (resetFlipState s) = deck s"
  "moves (resetFlipState s) = moves s"
  "matches (resetFlipState s) = matches s"
  "gameStarted (resetFlipState s) = gameStarted s"
  "paused (resetFlipState s) = paused s"
  "timerInterval (resetFlipState s) = timerInterval s"
  "startTime (resetFlipState s) = startTime s"
  "elapsedMs (resetFlipState s) = elapsedMs s"
  "bestScores (resetFlipState s) = bestScores s"
  "cards (resetFlipState s) = cards s"
  "boardDisabled (resetFlipState s) = boardDisabled s"
  "winShown (resetFlipState s) = winShown s"
  "startBtnDisabled (resetFlipState s) = startBtnDisabled s"
  "restartBtnDisabled (resetFlipState s) = restartBtnDisabled s"
  "pauseBtnDisabled (resetFlipState s) = pauseBtnDisabled s"
  "pauseBtnText (resetFlipState s) = pauseBtnText s"
  "movesText (resetFlipState s) = movesText s"
  "matchesText (resetFlipState s) = matchesText s"
  "timeText (resetFlipState s) = timeText s"
  "localStorage (resetFlipState s) = localStorage s"
  "intervals (resetFlipState s) = intervals s"
  "timeouts (resetFlipState s) = timeouts s"
  "timerIds (resetFlipState s) = timerIds s"
  "randomCalls (resetFlipState s) = randomCalls s"
  "endGameCalls (resetFlipState s) = endGameCalls s"
  by (simp_all add: resetFlipState_def)

lemma set_flipped_fields [simp]:
  "difficulty (set_flipped i b s) = difficulty s"
  "deck (set_flipped i b s) = deck s"
  "moves (set_flipped i b s) = moves s"
  "matches (set_flipped i b s) = matches s"
  "firstCard (set_flipped i b s) = firstCard s"
  "secondCard (set_flipped i b s) = secondCard s"
  "lockBoard (set_flipped i b s) = lockBoard s"
  "gameStarted (set_flipped i b s) = gameStarted s"
  "paused (set_flipped i b s) = paused s"
  "timerInterval (set_flipped i b s) = timerInterval s"
  "startTime (set_flipped i b s) = startTime s"
  "elapsedMs (set_flipped i b s) = elapsedMs s"
  "bestScores (set_flipped i b s) = bestScores s"
  "boardDisabled (set_flipped i b s) = boardDisabled s"
  "winShown (set_flipped i b s) = winShown s"
  "startBtnDisabled (set_flipped i b s) = startBtnDisabled s"
  "restartBtnDisabled (set_flipped i b s) = restartBtnDisabled s"
  "pauseBtnDisabled (set_flipped i b s) = pauseBtnDisabled s"
  "pauseBtnText (set_flipped i b s) = pauseBtnText s"
  "movesText (set_flipped i b s) = movesText s"
  "matchesText (set_flipped i b s) = matchesText s"
  "timeText (set_flipped i b s) = timeText s"
  "localStorage (set_flipped i b s) = localStorage s"
  "intervals (set_flipped i b s) = intervals s"
  "timeouts (set_flipped i b s) = timeouts s"
  "timerIds (set_flipped i b s) = timerIds s"
  "randomCalls (set_flipped i b s) = randomCalls s"
  "endGameCalls (set_flipped i b s) = endGameCalls s"
  by (simp_all add: set_flipped_def)

lemma set_matched_fields [simp]:
  "difficulty (set_matched i s) = difficulty s"
  "deck (set_matched i s) = deck s"
  "moves (set_matched i s) = moves s"
  "matches (set_matched i s) = matches s"
  "firstCard (set_matched i s) = firstCard s"
  "secondCard (set_matched i s) = secondCard s"
  "lockBoard (set_matched i s) = lockBoard s"
  "gameStarted (set_matched i s) = gameStarted s"
  "paused (set_matched i s) = paused s"
  "timerInterval (set_matched i s) = timerInterval s"
  "startTime (set_matched i s) = startTime s"
  "elapsedMs (set_matched i s) = elapsedMs s"
  "bestScores (set_matched i s) = bestScores s"
  "boardDisabled (set_matched i s) = boardDisabled s"
  "winShown (set_matched i s) = winShown s"
  "startBtnDisabled (set_matched i s) = startBtnDisabled s"
  "restartBtnDisabled (set_matched i s) = restartBtnDisabled s"
  "pauseBtnDisabled (set_matched i s) = pauseBtnDisabled s"
  "pauseBtnText (set_matched i s) = pauseBtnText s"
  "movesText (set_matched i s) = movesText s"
  "matchesText (set_matched i s) = matchesText s"
  "timeText (set_matched i s) = timeText s"
  "localStorage (set_matched i s) = localStorage s"
  "intervals (set_matched i s) = intervals s"
  "timeouts (set_matched i s) = timeouts s"
  "timerIds (set_matched i s) = timerIds s"
  "randomCalls (set_matched i s) = randomCalls s"
  "endGameCalls (set_matched i s) = endGameCalls s"
  by (simp_all add: set_matched_def)

lemma endGame_fields [simp]:
  "difficulty (endGame now s) = difficulty s"
  "deck (endGame now s) = deck s"
  "moves (endGame now s) = moves s"
  "matches (endGame now s) = matches s"
  "firstCard (endGame now s) = firstCard s"
  "secondCard (endGame now s) = secondCard s"
  "lockBoard (endGame now s) = lockBoard s"
  "startTime (endGame now s) = startTime s"
  "cards (endGame now s) = cards s"
  "restartBtnDisabled (endGame now s) = restartBtnDisabled s"
  "movesText (endGame now s) = movesText s"
  "matchesText (endGame now s) = matchesText s"
  "timeText (endGame now s) = timeText s"
  "timeouts (endGame now s) = timeouts s"
  "timerIds (endGame now s) = timerIds s"
  "randomCalls (endGame now s) = randomCalls s"
  by (simp_all add: endGame_def Let_def showWin_def stopTimer_def maybeUpdateBestScore_def)

lemma tickTimer_timeText [simp]:
  "timeText (tickTimer now s) = formatTime ((elapsedMs s + (now - startTime s)) div 1000)"
  by (simp add: tickTimer_def Let_def)

lemma startTimer_writes [simp]:
  "timerInterval (startTimer now s) = Some (Suc (timerIds s))"
  "intervals (startTimer now s) = intervals s @ [Suc (timerIds s)]"
  "timerIds (startTimer now s) = Suc (timerIds s)"
  "startTime (startTimer now s) = now"
  by (simp_all add: startTimer_def tickTimer_def Let_def)

lemma resetFlipState_writes [simp]:
  "firstCard (resetFlipState s) = None"
  "secondCard (resetFlipState s) = None"
  "lockBoard (resetFlipState s) = False"
  by (simp_all add: resetFlipState_def)

lemma endGame_writes [simp]:
  "gameStarted (endGame now s) = False"
  "paused (endGame now s) = False"
  "endGameCalls (endGame now s) = Suc (endGameCalls s)"
  "boardDisabled (endGame now s) = True"
  by (simp_all add: endGame_def Let_def showWin_def)

lemma renderBoard_length [simp]: "length (cards (renderBoard s)) = length (deck s)"
  by (simp add: renderBoard_def)

lemma set_flipped_length [simp]: "length (cards (set_flipped i b s)) = length (cards s)"
  by (simp add: set_flipped_def)

lemma set_matched_length [simp]: "length (cards (set_matched i s)) = length (cards s)"
  by (simp add: set_matched_def)

lemma stopTimer_no_handle: "no_handle (timerInterval (stopTimer now s))"
  by (simp add: stopTimer_def)

lemma endGame_timer [simp]:
  "timerInterval (endGame now s) = timerInterval (stopTimer now s)"
  "intervals (endGame now s) = intervals (stopTimer now s)"
  "elapsedMs (endGame now s) = elapsedMs (stopTimer now s)"
  by (simp_all add: endGame_def Let_def showWin_def stopTimer_def)


subsection \<open>Shuffle\<close>

lemma draw_in_range:
  assumes "random_ok rnd"
  shows "0 \<le> \<lfloor>rnd k * (real i + 1)\<rfloor>" and "nat \<lfloor>rnd k * (real i + 1)\<rfloor> \<le> i"
proof -
  from assms have r: "0 \<le> rnd k" "rnd k < 1" by (simp_all add: random_ok_def)
  then have "0 \<le> rnd k * (real i + 1)" by simp
  then show "0 \<le> \<lfloor>rnd k * (real i + 1)\<rfloor>" by simp
  have "rnd k * (real i + 1) < 1 * (real i + 1)"
    by (rule mult_strict_right_mono [OF r(2)]) simp
  also have "1 * (real i + 1) = real (Suc i)" by simp
  finally have "rnd k * (real i + 1) < real (Suc i)" .
  then have "\<lfloor>rnd k * (real i + 1)\<rfloor> < int (Suc i)"
    by (simp add: floor_less_iff)
  then show "nat \<lfloor>rnd k * (real i + 1)\<rfloor> \<le> i" by simp
qed

lemma mset_swap_step:
  "i < length arr \<Longrightarrow> j < length arr \<Longrightarrow> mset (arr[i := arr ! j, j := arr ! i]) = mset arr"
  using mset_swap [of j arr i] by simp

lemma mset_apply_swaps:
  "\<forall>(i, j) \<in> set ps. i < length arr \<and> j < length arr \<Longrightarrow>
     mset (apply_swaps ps arr) = mset arr \<and> length (apply_swaps ps arr) = length arr"
proof (induction ps arbitrary: arr)
  case Nil
  then show ?case by simp
next
  case (Cons p ps)
  obtain i j where p: "p = (i, j)" by (cases p)
  from Cons.prems p have ij: "i < length arr" "j < length arr" by simp_all
  let ?a = "arr[i := arr ! j, j := arr ! i]"
  have "\<forall>(i, j) \<in> set ps. i < length ?a \<and> j < length ?a"
    using Cons.prems by simp
  from Cons.IH [OF this] show ?case
    using p ij by (simp add: mset_swap_step)
qed

lemma shuffle_loop_swaps:
  assumes "random_ok rnd"
  shows "i < length arr \<Longrightarrow>
     shuffle_loop rnd k i arr =
       Some (apply_swaps (map (\<lambda>m. (i - m, nat \<lfloor>rnd (k + m) * (real (i - m) + 1)\<rfloor>)) [0..<i]) arr,
             k + i)"
proof (induction i arbitrary: k arr)
  case 0
  then show ?case by simp
next
  case (Suc i)
  let ?j = "nat \<lfloor>rnd k * (real (Suc i) + 1)\<rfloor>"
  let ?a = "arr[Suc i := arr ! ?j, ?j := arr ! Suc i]"
  have j0: "0 \<le> \<lfloor>rnd k * (real (Suc i) + 1)\<rfloor>" and ji: "?j \<le> Suc i"
    using draw_in_range [OF assms, of k "Suc i"] by simp_all
  have len: "i < length ?a" using Suc.prems by simp
  have upt: "[0..<Suc i] = 0 # map Suc [0..<i]"
    by (simp add: upt_conv_Cons map_Suc_upt del: upt_Suc)
  have "shuffle_loop rnd k (Suc i) arr = shuffle_loop rnd (Suc k) i ?a"
    using j0 ji Suc.prems by (simp add: Let_def)
  also have "\<dots> = Some (apply_swaps (map (\<lambda>m. (i - m, nat \<lfloor>rnd (Suc k + m) * (real (i - m) + 1)\<rfloor>)) [0..<i]) ?a,
             Suc k + i)"
    by (rule Suc.IH [OF len])
  finally show ?case
    by (simp only: upt list.map map_map o_def apply_swaps.simps diff_Suc_Suc diff_zero add_Suc_right add_Suc add_0_right)
qed

lemma shuffle_eq_swaps:
  assumes "random_ok rnd"
  shows "shuffle rnd k arr =
     Some (apply_swaps (fisher_yates_swaps rnd k (length arr)) arr, k + (length arr - 1))"
proof (cases arr)
  case Nil
  then show ?thesis by (simp add: shuffle_def fisher_yates_swaps_def)
next
  case (Cons x xs)
  then have lt: "length arr - 1 < length arr" by simp
  have "map (\<lambda>m. (length arr - 1 - m, nat \<lfloor>rnd (k + m) * (real (length arr - 1 - m) + 1)\<rfloor>)) [0..<length arr - 1]
      = fisher_yates_swaps rnd k (length arr)"
    unfolding fisher_yates_swaps_def
    by (rule map_cong) (auto simp: of_nat_diff algebra_simps)
  then show ?thesis
    using shuffle_loop_swaps [OF assms lt, of k] by (simp add: shuffle_def)
qed

lemma fisher_yates_swaps_fst:
  "map fst (fisher_yates_swaps rnd k n) = rev [1..<n]"
proof -
  have "map fst (fisher_yates_swaps rnd k n) = map (\<lambda>m. n - 1 - m) [0..<n - 1]"
    by (simp add: fisher_yates_swaps_def o_def)
  also have "\<dots> = rev [1..<n]"
    by (rule nth_equalityI) (auto simp: rev_nth)
  finally show ?thesis .
qed

lemma fisher_yates_swaps_range:
  assumes "random_ok rnd" and "(i, j) \<in> set (fisher_yates_swaps rnd k n)"
  shows "1 \<le> i \<and> i < n \<and> j \<le> i"
proof -
  from assms(2) obtain m where m: "m < n - 1" "i = n - 1 - m"
      "j = nat \<lfloor>rnd (k + m) * real (n - m)\<rfloor>"
    by (auto simp: fisher_yates_swaps_def)
  have "real (n - m) = real i + 1" using m by (simp add: of_nat_diff)
  with draw_in_range(2) [OF assms(1), of "k + m" i] m show ?thesis by simp
qed

lemma shuffle_mset:
  assumes "random_ok rnd"
  shows "shuffle rnd k arr =
           Some (apply_swaps (fisher_yates_swaps rnd k (length arr)) arr, k + (length arr - 1))
         \<and> mset (apply_swaps (fisher_yates_swaps rnd k (length arr)) arr) = mset arr"
proof -
  have "\<forall>(i, j) \<in> set (fisher_yates_swaps rnd k (length arr)). i < length arr \<and> j < length arr"
    using fisher_yates_swaps_range [OF assms] by fastforce
  then show ?thesis
    using shuffle_eq_swaps [OF assms, of k arr] mset_apply_swaps by blast
qed

lemma sample_draws_ok: "random_ok sample_draws"
  by (simp add: random_ok_def sample_draws_def)

text \<open>
  Claim C7. Under the contract of \<^verbatim>\<open>Math.random()\<close>, \<open>shuffle\<close> returns, and returns
  a permutation of its input: the same multiset of elements. It is the composition of
  the swaps of \<open>fisher_yates_swaps\<close>: the swapped positions \<open>i\<close> are, in order, the last
  index down to 1, and each is swapped with an index \<open>j\<close> in \<open>[0, i]\<close>. One draw is
  consumed for each round.
\<close>

theorem shuffle_permutation:
  assumes "random_ok rnd"
  shows "\<exists>arr'. shuffle rnd k arr = Some (arr', k + (length arr - 1))
           \<and> mset arr' = mset arr
           \<and> arr' = apply_swaps (fisher_yates_swaps rnd k (length arr)) arr
           \<and> map fst (fisher_yates_swaps rnd k (length arr)) = rev [1..<length arr]
           \<and> (\<forall>(i, j) \<in> set (fisher_yates_swaps rnd k (length arr)). j \<le> i)"
proof -
  have "\<forall>(i, j) \<in> set (fisher_yates_swaps rnd k (length arr)). j \<le> i"
    using fisher_yates_swaps_range [OF assms] by fastforce
  then show ?thesis
    using shuffle_mset [OF assms, of k arr] fisher_yates_swaps_fst by simp
qed

theorem shuffle_permutation_witness:
  "random_ok sample_draws \<and>
   (\<exists>arr'. shuffle sample_draws 0 [10, 20, 30, 40 :: nat] = Some (arr', 3)
      \<and> mset arr' = mset [10, 20, 30, 40])"
  using shuffle_permutation [OF sample_draws_ok, of 0 "[10, 20, 30, 40 :: nat]"] sample_draws_ok
  by simp

subsection \<open>Deck generation\<close>

lemma distinct_names: "distinct (map name GAME_DATA)"
  by (simp add: GAME_DATA_def)

lemma pairs_le_pool: "pairs (DIFFICULTIES d) \<le> length GAME_DATA"
  by (cases d) (simp_all add: GAME_DATA_def)

lemma doubled_counts:
  assumes "distinct (map f chosen)" and "mset dk = mset chosen + mset chosen"
  shows "\<forall>x \<in> set dk. count_list (map f dk) (f x) = 2"
    and "card (f ` set dk) = length chosen"
    and "length dk = 2 * length chosen"
proof -
  have m: "mset (map f dk) = mset (map f chosen) + mset (map f chosen)"
    using assms(2) by (metis image_mset_union mset_map)
  have s: "set dk = set chosen"
    using assms(2) by (metis mset_append set_append set_mset_mset sup.idem)
  show "\<forall>x \<in> set dk. count_list (map f dk) (f x) = 2"
  proof
    fix x assume "x \<in> set dk"
    then have "f x \<in> set (map f chosen)" using s by simp
    then have "count (mset (map f chosen)) (f x) = 1"
      using assms(1) by (simp add: distinct_count_atmost_1)
    then have "count (mset (map f dk)) (f x) = 2" using m by simp
    then show "count_list (map f dk) (f x) = 2" by (metis count_mset)
  qed
  show "card (f ` set dk) = length chosen"
    using distinct_card [OF assms(1)] s by simp
  show "length dk = 2 * length chosen"
    using assms(2) by (metis mset_eq_length mset_append length_append mult_2)
qed

lemma generateDeck_props:
  assumes "random_ok rnd"
  shows "\<exists>dk k'. generateDeck rnd k d = Some (dk, k')
           \<and> length dk = 2 * pairs (DIFFICULTIES d)
           \<and> (\<forall>x \<in> set dk. count_list (map name dk) (name x) = 2)
           \<and> card (name ` set dk) = pairs (DIFFICULTIES d)
           \<and> set dk \<subseteq> set GAME_DATA"
proof -
  let ?p = "pairs (DIFFICULTIES d)"
  from shuffle_mset [OF assms, of k GAME_DATA]
  obtain pool where pool: "shuffle rnd k GAME_DATA = Some (pool, k + (length GAME_DATA - 1))"
      "mset pool = mset GAME_DATA" by blast
  let ?chosen = "take ?p pool"
  from shuffle_mset [OF assms, of "k + (length GAME_DATA - 1)" "?chosen @ ?chosen"]
  obtain dk k' where dk: "shuffle rnd (k + (length GAME_DATA - 1)) (?chosen @ ?chosen) = Some (dk, k')"
      "mset dk = mset (?chosen @ ?chosen)" by blast
  have gen: "generateDeck rnd k d = Some (dk, k')"
    using pool(1) dk(1) by (simp add: generateDeck_def)
  have "mset (map name pool) = mset (map name GAME_DATA)"
    using pool(2) by (metis mset_map)
  then have "distinct (map name pool)"
    using distinct_names by (metis mset_eq_imp_distinct_iff)
  then have dist: "distinct (map name ?chosen)"
    by (simp add: take_map [symmetric])
  have "length pool = length GAME_DATA"
    using pool(2) by (rule mset_eq_length)
  then have len: "length ?chosen = ?p"
    using pairs_le_pool [of d] by simp
  have sub: "set dk \<subseteq> set GAME_DATA"
  proof -
    have "set dk = set ?chosen"
      using dk(2) by (metis mset_append set_append set_mset_mset sup.idem)
    moreover have "set ?chosen \<subseteq> set pool" by (rule set_take_subset)
    moreover have "set pool = set GAME_DATA" using pool(2) by (rule mset_eq_setD)
    ultimately show ?thesis by simp
  qed
  have m: "mset dk = mset ?chosen + mset ?chosen" using dk(2) by simp
  show ?thesis
    using gen doubled_counts [OF dist m] len sub by simp
qed

lemma generateDeck_total:
  assumes "random_ok rnd"
  shows "\<exists>dk k'. generateDeck rnd k d = Some (dk, k')"
  using generateDeck_props [OF assms] by blast

text \<open>
  Claim C2. Under the contract of \<^verbatim>\<open>Math.random()\<close>, for either difficulty
  \<open>generateDeck\<close> returns a deck of length twice the pair count in which the name of
  every card occurs exactly twice. The deck holds exactly pair-count many different names,
  all from \<open>GAME_DATA\<close>.
\<close>

theorem generateDeck_pairs:
  assumes "random_ok rnd"
  shows "\<exists>dk k'. generateDeck rnd k d = Some (dk, k')
           \<and> length dk = 2 * pairs (DIFFICULTIES d)
           \<and> (\<forall>x \<in> set dk. count_list (map name dk) (name x) = 2)
           \<and> card (name ` set dk) = pairs (DIFFICULTIES d)
           \<and> set dk \<subseteq> set GAME_DATA"
  using generateDeck_props [OF assms] .

theorem generateDeck_pairs_witness:
  "random_ok sample_draws \<and>
   (\<exists>dk k'. generateDeck sample_draws 0 Easy = Some (dk, k') \<and> length dk = 12
      \<and> card (name ` set dk) = 6)"
  using generateDeck_pairs [OF sample_draws_ok, of 0 Easy] sample_draws_ok
  by auto


subsection \<open>Clicks that do nothing\<close>

text \<open>
  Claim C3. When the game is not started, or is paused, or the board is locked, or the
  clicked card is already matched or already face-up, \<open>flipCard\<close> returns with the whole
  page as it was, and so does a click on that card.
\<close>

theorem flipCard_noop:
  assumes "\<not> gameStarted s \<or> paused s \<or> lockBoard s
           \<or> (i < length (cards s) \<and> (is_matched (cards s ! i) \<or> is_flipped (cards s ! i)))"
  shows "flipCard now i s = Normal s \<and> step rnd now (CardClick i) s = Normal s"
  using assms by (auto simp: flipCard_def boardClick_def)

lemma sample_loaded_not_started: "\<not> gameStarted sample_loaded"
  by code_simp

theorem flipCard_noop_witness:
  "\<not> gameStarted sample_loaded \<and> flipCard 1500 0 sample_loaded = Normal sample_loaded"
  using flipCard_noop [of sample_loaded 0 1500 sample_draws] sample_loaded_not_started
  by simp

subsection \<open>The timer agrees with the flags\<close>

lemma timer_ok_stopTimer:
  "timer_ok s \<Longrightarrow> timerInterval (stopTimer now s) = None \<and> intervals (stopTimer now s) = []"
  by (auto simp: timer_ok_def stopTimer_def split: option.splits if_splits)

lemma timer_ok_same:
  "gameStarted s' = gameStarted s \<Longrightarrow> paused s' = paused s \<Longrightarrow> timerInterval s' = timerInterval s
     \<Longrightarrow> intervals s' = intervals s \<Longrightarrow> timer_ok s \<Longrightarrow> timer_ok s'"
  by (auto simp: timer_ok_def split: option.splits if_splits)

lemma timer_ok_endGame: "timer_ok s \<Longrightarrow> timer_ok (endGame now s)"
  using timer_ok_stopTimer [of s now] by (simp add: timer_ok_def)

lemma timer_ok_checkMatch:
  assumes "timer_ok s" "page_of (checkMatch now s) = Some s'"
  shows "timer_ok s'"
proof -
  let ?s3 = "resetFlipState (updateStats (set_matched (the (secondCard s))
      (set_matched (the (firstCard s)) (s\<lparr>matches := matches s + 1\<rparr>))))"
  let ?m = "s\<lparr>lockBoard := True, timeouts := timeouts s @ [now + 900],
                           timerIds := Suc (timerIds s)\<rparr>"
  have t3: "timer_ok ?s3" by (rule timer_ok_same [OF _ _ _ _ assms(1)]) simp_all
  have tm: "timer_ok ?m" by (rule timer_ok_same [OF _ _ _ _ assms(1)]) simp_all
  have "s' = s \<or> s' = ?s3 \<or> s' = endGame now ?s3 \<or> s' = ?m"
    using assms(2) by (auto simp: checkMatch_def Let_def split: option.splits if_splits)
  then show ?thesis using assms(1) t3 tm timer_ok_endGame [OF t3] by auto
qed

lemma timer_ok_flipCard:
  assumes "timer_ok s" "page_of (flipCard now i s) = Some s'"
  shows "timer_ok s'"
proof -
  let ?f = "(set_flipped i True s)\<lparr>firstCard := Some i\<rparr>"
  let ?s1 = "updateStats ((set_flipped i True s)\<lparr>secondCard := Some i,
          moves := moves (set_flipped i True s) + 1\<rparr>)"
  have tf: "timer_ok ?f" by (rule timer_ok_same [OF _ _ _ _ assms(1)]) simp_all
  have t1: "timer_ok ?s1" by (rule timer_ok_same [OF _ _ _ _ assms(1)]) simp_all
  have "s' = s \<or> s' = ?f \<or> page_of (checkMatch now ?s1) = Some s'"
    using assms(2) by (auto simp: flipCard_def Let_def split: option.splits if_splits)
  then show ?thesis using assms(1) tf timer_ok_checkMatch [OF t1] by auto
qed

lemma timer_ok_flipBack:
  assumes "timer_ok s" "page_of (flipBack s) = Some s'"
  shows "timer_ok s'"
proof -
  have "gameStarted s' = gameStarted s \<and> paused s' = paused s
      \<and> timerInterval s' = timerInterval s \<and> intervals s' = intervals s"
    using assms(2) by (auto simp: flipBack_def Let_def split: option.splits)
  then show ?thesis using timer_ok_same assms(1) by blast
qed

lemma timer_ok_startTimer:
  "timerInterval s = None \<Longrightarrow> intervals s = [] \<Longrightarrow> gameStarted s \<Longrightarrow> \<not> paused s
     \<Longrightarrow> timer_ok (startTimer now s)"
  by (simp add: timer_ok_def)

lemma resetTimer_stops:
  "timer_ok s \<Longrightarrow> timerInterval (resetTimer now s) = None \<and> intervals (resetTimer now s) = []"
  using timer_ok_stopTimer [of s now] by (simp add: resetTimer_def)

lemma timer_ok_pauseGame: "timer_ok s \<Longrightarrow> timer_ok (pauseGame now s)"
  by (auto simp: pauseGame_def timer_ok_def stopTimer_def split: option.splits if_splits)

lemma timer_ok_resumeGame: "timer_ok s \<Longrightarrow> timer_ok (resumeGame now s)"
  by (auto simp: resumeGame_def timer_ok_def split: option.splits if_splits)


subsection \<open>The slots refer to cards of the board\<close>

text \<open>
  \<open>board_ok\<close> holds when the script has loaded and after every event: it is an
  invariant of the page.
\<close>

lemma board_ok_same:
  "length (cards s') = length (cards s) \<Longrightarrow> length (deck s') = length (deck s)
     \<Longrightarrow> firstCard s' = firstCard s \<Longrightarrow> secondCard s' = secondCard s
     \<Longrightarrow> board_ok s \<Longrightarrow> board_ok s'"
  by (auto simp: board_ok_def split: option.splits)

lemma board_ok_cleared:
  "length (cards s') = length (cards s) \<Longrightarrow> length (deck s') = length (deck s)
     \<Longrightarrow> firstCard s' = None \<Longrightarrow> secondCard s' = None
     \<Longrightarrow> board_ok s \<Longrightarrow> board_ok s'"
  by (auto simp: board_ok_def split: option.splits)

lemma board_ok_checkMatch:
  assumes "board_ok s" "page_of (checkMatch now s) = Some s'"
  shows "board_ok s'"
proof -
  let ?s3 = "resetFlipState (updateStats (set_matched (the (secondCard s))
      (set_matched (the (firstCard s)) (s\<lparr>matches := matches s + 1\<rparr>))))"
  let ?m = "s\<lparr>lockBoard := True, timeouts := timeouts s @ [now + 900],
                           timerIds := Suc (timerIds s)\<rparr>"
  have t3: "board_ok ?s3" by (rule board_ok_cleared [OF _ _ _ _ assms(1)]) simp_all
  have te: "board_ok (endGame now ?s3)" by (rule board_ok_cleared [OF _ _ _ _ assms(1)]) simp_all
  have tm: "board_ok ?m" by (rule board_ok_same [OF _ _ _ _ assms(1)]) simp_all
  have "s' = s \<or> s' = ?s3 \<or> s' = endGame now ?s3 \<or> s' = ?m"
    using assms(2) by (auto simp: checkMatch_def Let_def split: option.splits if_splits)
  then show ?thesis using assms(1) t3 te tm by auto
qed

lemma board_ok_flipCard:
  assumes "board_ok s" "page_of (flipCard now i s) = Some s'"
  shows "board_ok s'"
proof (cases "i < length (cards s)")
  case False
  then have "s' = s" using assms(2) by (auto simp: flipCard_def split: if_splits)
  then show ?thesis using assms(1) by simp
next
  case True
  let ?f = "(set_flipped i True s)\<lparr>firstCard := Some i\<rparr>"
  let ?s1 = "updateStats ((set_flipped i True s)\<lparr>secondCard := Some i,
          moves := moves (set_flipped i True s) + 1\<rparr>)"
  have tf: "firstCard s = None \<Longrightarrow> board_ok ?f"
    using assms(1) True by (auto simp: board_ok_def split: option.splits)
  have t1: "board_ok ?s1" using assms(1) True by (auto simp: board_ok_def split: option.splits)
  have "s' = s \<or> (firstCard s = None \<and> s' = ?f) \<or> page_of (checkMatch now ?s1) = Some s'"
    using assms(2) by (auto simp: flipCard_def Let_def split: option.splits if_splits)
  then show ?thesis using assms(1) tf board_ok_checkMatch [OF t1] by auto
qed

lemma board_ok_flipBack:
  assumes "board_ok s" "page_of (flipBack s) = Some s'"
  shows "board_ok s'"
proof -
  have "length (cards s') = length (cards s) \<and> length (deck s') = length (deck s)
      \<and> ((firstCard s' = firstCard s \<and> secondCard s' = secondCard s)
          \<or> (firstCard s' = None \<and> secondCard s' = None))"
    using assms(2) by (auto simp: flipBack_def Let_def split: option.splits)
  then show ?thesis using board_ok_same board_ok_cleared assms(1) by blast
qed

lemma board_ok_startGame:
  "page_of (startGame rnd now s) = Some s' \<Longrightarrow> board_ok s'"
  by (auto simp: startGame_def Let_def board_ok_def split: option.splits)

lemma board_ok_prepareGame:
  "page_of (prepareGame rnd now s) = Some s' \<Longrightarrow> board_ok s'"
  by (auto simp: prepareGame_def Let_def board_ok_def split: option.splits)

lemma board_ok_step:
  assumes "board_ok s" "page_of (step rnd now e s) = Some s'"
  shows "board_ok s'"
proof (cases e)
  case (CardClick i)
  then show ?thesis
    using assms board_ok_flipCard [OF assms(1)] by (auto simp: boardClick_def split: if_splits)
next
  case StartClick
  then show ?thesis
    using assms board_ok_startGame [of rnd now s] by (auto split: if_splits)
next
  case RestartClick
  then show ?thesis
    using assms board_ok_startGame [of rnd now s] by (auto split: if_splits)
next
  case PauseClick
  have "board_ok (pauseGame now s)"
    by (rule board_ok_same [OF _ _ _ _ assms(1)]) (simp_all add: pauseGame_def)
  moreover have "board_ok (resumeGame now s)"
    by (rule board_ok_same [OF _ _ _ _ assms(1)]) (simp_all add: resumeGame_def)
  ultimately show ?thesis using PauseClick assms by (auto split: if_splits)
next
  case (DifficultyChange d)
  then show ?thesis
    using assms board_ok_prepareGame [of rnd now "s\<lparr>difficulty := d\<rparr>"] by auto
next
  case TimeoutFires
  show ?thesis
  proof (cases "timeouts s")
    case Nil
    then show ?thesis using TimeoutFires assms by simp
  next
    case (Cons t ts)
    have t: "board_ok (s\<lparr>timeouts := ts\<rparr>)" by (rule board_ok_same [OF _ _ _ _ assms(1)]) simp_all
    show ?thesis
      using TimeoutFires Cons board_ok_flipBack [OF t] assms by (auto split: if_splits)
  qed
next
  case IntervalTick
  have "board_ok (tickTimer now s)" by (rule board_ok_same [OF _ _ _ _ assms(1)]) simp_all
  then show ?thesis using IntervalTick assms by (auto split: if_splits)
qed

lemma board_ok_init: "init rnd now d store = Some s \<Longrightarrow> board_ok s"
proof -
  assume a: "init rnd now d store = Some s"
  then obtain s1 where "loadBestScores (initial_page d store) = Some s1"
      "page_of (prepareGame rnd now s1) = Some s"
    by (auto simp: init_def split: option.splits)
  then show ?thesis
    using board_ok_prepareGame [of rnd now s1 s] by auto
qed

subsection \<open>One event of a game\<close>

lemma game_step_same:
  "difficulty s' = difficulty s \<Longrightarrow> gameStarted s' = gameStarted s \<Longrightarrow> matches s' = matches s
     \<Longrightarrow> endGameCalls s' = endGameCalls s \<Longrightarrow> game_step s s'"
  by (simp add: game_step_def)

lemma game_step_from:
  assumes "difficulty s1 = difficulty s" "gameStarted s1 = gameStarted s"
    "matches s1 = matches s" "endGameCalls s1 = endGameCalls s" "game_step s1 s'"
  shows "game_step s s'"
proof -
  have "pairCount s1 = pairCount s" using assms(1) by (simp add: pairCount_def)
  then have "game_step s1 s' = game_step s s'"
    unfolding game_step_def by (simp add: assms(1-4) cong: if_cong)
  then show ?thesis using assms(5) by simp
qed

lemma checkMatch_game_step:
  assumes "gameStarted s"
  shows "\<exists>s'. page_of (checkMatch now s) = Some s' \<and> game_step s s'"
proof (cases "firstCard s")
  case None
  then show ?thesis by (simp add: checkMatch_def game_step_same)
next
  case a: (Some a)
  show ?thesis
  proof (cases "secondCard s")
    case None
    then show ?thesis using a by (simp add: checkMatch_def game_step_same)
  next
    case b: (Some b)
    show ?thesis
    proof (cases "a < length (deck s) \<and> b < length (deck s)")
      case False
      then show ?thesis using a b by (auto simp: checkMatch_def game_step_same)
    next
      case True
      show ?thesis
      proof (cases "name (deck s ! a) = name (deck s ! b)")
        case False
        then show ?thesis using a b True by (simp add: checkMatch_def game_step_same)
      next
        case eq: True
        let ?s3 = "resetFlipState (updateStats (set_matched b (set_matched a (s\<lparr>matches := matches s + 1\<rparr>))))"
        have cm: "checkMatch now s =
            (if matches ?s3 = pairs (DIFFICULTIES (difficulty ?s3))
             then Normal (endGame now ?s3) else Normal ?s3)"
          using a b True eq by (simp add: checkMatch_def Let_def)
        show ?thesis
        proof (cases "matches ?s3 = pairs (DIFFICULTIES (difficulty ?s3))")
          case True
          then have "page_of (checkMatch now s) = Some (endGame now ?s3)" using cm by simp
          moreover have "game_step s (endGame now ?s3)"
            using True assms by (simp add: game_step_def pairCount_def)
          ultimately show ?thesis by blast
        next
          case False
          then have "page_of (checkMatch now s) = Some ?s3" using cm by simp
          moreover have "game_step s ?s3"
            using False assms by (simp add: game_step_def pairCount_def)
          ultimately show ?thesis by blast
        qed
      qed
    qed
  qed
qed

lemma flipCard_game_step:
  "\<exists>s'. page_of (flipCard now i s) = Some s' \<and> game_step s s'"
proof (cases "\<not> gameStarted s \<or> paused s \<or> lockBoard s \<or> \<not> i < length (cards s)
    \<or> is_matched (cards s ! i) \<or> is_flipped (cards s ! i)")
  case True
  then have "page_of (flipCard now i s) = Some s"
    by (auto simp: flipCard_def)
  then show ?thesis by (simp add: game_step_same)
next
  case False
  show ?thesis
  proof (cases "firstCard s")
    case None
    then have "page_of (flipCard now i s) = Some ((set_flipped i True s)\<lparr>firstCard := Some i\<rparr>)"
      using False by (simp add: flipCard_def Let_def)
    then show ?thesis by (simp add: game_step_same)
  next
    case (Some a)
    let ?s1 = "updateStats ((set_flipped i True s)\<lparr>secondCard := Some i,
          moves := moves (set_flipped i True s) + 1\<rparr>)"
    have f: "flipCard now i s = checkMatch now ?s1"
      using False Some by (simp add: flipCard_def Let_def)
    have "gameStarted ?s1" using False by simp
    from checkMatch_game_step [OF this, of now]
    obtain s' where s': "page_of (checkMatch now ?s1) = Some s'" "game_step ?s1 s'" by blast
    have "game_step s s'"
      by (rule game_step_from [OF _ _ _ _ s'(2)]) simp_all
    then show ?thesis using f s'(1) by simp
  qed
qed

lemma flipBack_game_step:
  "\<exists>s'. page_of (flipBack s) = Some s' \<and> game_step s s'"
  by (auto simp: flipBack_def Let_def game_step_same split: option.splits)

lemma step_game_step:
  assumes "\<not> is_reset e"
  shows "\<exists>s'. page_of (step rnd now e s) = Some s' \<and> game_step s s'"
proof (cases e)
  case (CardClick i)
  then show ?thesis
    using flipCard_game_step [of now i s] by (auto simp: boardClick_def game_step_same)
next
  case PauseClick
  then show ?thesis
    by (auto simp: game_step_same pauseGame_def resumeGame_def)
next
  case TimeoutFires
  show ?thesis
  proof (cases "timeouts s")
    case Nil
    then show ?thesis using TimeoutFires by (simp add: game_step_same)
  next
    case (Cons t ts)
    obtain s' where s': "page_of (flipBack (s\<lparr>timeouts := ts\<rparr>)) = Some s'"
        "game_step (s\<lparr>timeouts := ts\<rparr>) s'"
      using flipBack_game_step by blast
    have "game_step s s'"
      by (rule game_step_from [OF _ _ _ _ s'(2)]) simp_all
    then show ?thesis
      using TimeoutFires Cons s'(1) by (auto simp: game_step_same)
  qed
next
  case IntervalTick
  then show ?thesis by (auto simp: game_step_same)
qed (use assms in simp_all)

lemma one_game_step:
  assumes "one_game c s" "game_step s s'"
  shows "one_game c s'"
    and "endGameCalls s' = endGameCalls s +
           (if matches s < pairCount s \<and> matches s' = pairCount s' then 1 else 0)"
    and "difficulty s' = difficulty s"
proof -
  have pc: "pairCount s' = pairCount s" using assms(2) by (simp add: game_step_def pairCount_def)
  show "one_game c s'"
    using assms pc unfolding one_game_def game_step_def by (auto split: if_splits)
  show "endGameCalls s' = endGameCalls s +
           (if matches s < pairCount s \<and> matches s' = pairCount s' then 1 else 0)"
    using assms pc unfolding one_game_def game_step_def by (auto split: if_splits)
  show "difficulty s' = difficulty s" using assms(2) by (simp add: game_step_def)
qed

lemma run_one_game:
  assumes "\<forall>(t, e) \<in> set es. \<not> is_reset e" "one_game c s0"
  shows "\<exists>s. run rnd es s0 = Some s \<and> one_game c s \<and> difficulty s = difficulty s0"
  using assms
proof (induction es arbitrary: s0)
  case Nil
  then show ?case by simp
next
  case (Cons p es)
  obtain t e where p: "p = (t, e)" by (cases p)
  with Cons.prems have ne: "\<not> is_reset e" by simp
  from step_game_step [OF ne, of rnd t s0]
  obtain s1 where s1: "page_of (step rnd t e s0) = Some s1" "game_step s0 s1" by blast
  have og: "one_game c s1" and d: "difficulty s1 = difficulty s0"
    using one_game_step [OF Cons.prems(2) s1(2)] by simp_all
  have "\<forall>(t, e) \<in> set es. \<not> is_reset e" using Cons.prems(1) by simp
  from Cons.IH [OF this og] show ?case using p s1(1) d by simp
qed

subsection \<open>Pending callbacks and the lock\<close>

text \<open>
  \<open>pending_ok\<close> holds when the script has loaded, and every event other than a reset
  keeps it. A start or a change of difficulty while a callback is pending breaks it: the
  board is unlocked and the callback stays.
\<close>

lemma pending_ok_same:
  "lockBoard s' = lockBoard s \<Longrightarrow> timeouts s' = timeouts s \<Longrightarrow> firstCard s' = firstCard s
     \<Longrightarrow> secondCard s' = secondCard s \<Longrightarrow> pending_ok s \<Longrightarrow> pending_ok s'"
  by (simp add: pending_ok_def)

lemma pending_ok_unlocked:
  "\<not> lockBoard s \<Longrightarrow> pending_ok s \<Longrightarrow> \<not> lockBoard s' \<Longrightarrow> timeouts s' = timeouts s
     \<Longrightarrow> pending_ok s'"
  by (simp add: pending_ok_def)

lemma pending_ok_checkMatch:
  assumes "pending_ok s" "\<not> lockBoard s" "page_of (checkMatch now s) = Some s'"
  shows "pending_ok s'"
proof -
  let ?s3 = "resetFlipState (updateStats (set_matched (the (secondCard s))
      (set_matched (the (firstCard s)) (s\<lparr>matches := matches s + 1\<rparr>))))"
  let ?m = "s\<lparr>lockBoard := True, timeouts := timeouts s @ [now + 900],
                           timerIds := Suc (timerIds s)\<rparr>"
  have t3: "pending_ok ?s3" by (rule pending_ok_unlocked [OF assms(2,1)]) simp_all
  have te: "pending_ok (endGame now ?s3)" by (rule pending_ok_unlocked [OF assms(2,1)]) simp_all
  have tm: "pending_ok ?m" if "firstCard s \<noteq> None" "secondCard s \<noteq> None"
    using assms(1,2) that by (simp add: pending_ok_def)
  have "s' = s \<or> s' = ?s3 \<or> s' = endGame now ?s3
      \<or> (firstCard s \<noteq> None \<and> secondCard s \<noteq> None \<and> s' = ?m)"
    using assms(3) by (auto simp: checkMatch_def Let_def split: option.splits if_splits)
  then show ?thesis using assms(1) t3 te tm by auto
qed

lemma pending_ok_flipCard:
  assumes "pending_ok s" "page_of (flipCard now i s) = Some s'"
  shows "pending_ok s'"
proof (cases "lockBoard s")
  case True
  then have "s' = s" using assms(2) by (auto simp: flipCard_def split: if_splits)
  then show ?thesis using assms(1) by simp
next
  case False
  let ?f = "(set_flipped i True s)\<lparr>firstCard := Some i\<rparr>"
  let ?s1 = "updateStats ((set_flipped i True s)\<lparr>secondCard := Some i,
          moves := moves (set_flipped i True s) + 1\<rparr>)"
  have tf: "pending_ok ?f" by (rule pending_ok_unlocked [OF False assms(1)]) (simp_all add: False)
  have t1: "pending_ok ?s1" by (rule pending_ok_unlocked [OF False assms(1)]) (simp_all add: False)
  have l1: "\<not> lockBoard ?s1" using False by simp
  have "s' = s \<or> s' = ?f \<or> page_of (checkMatch now ?s1) = Some s'"
    using assms(2) by (auto simp: flipCard_def Let_def split: option.splits if_splits)
  then show ?thesis using assms(1) tf pending_ok_checkMatch [OF t1 l1] by auto
qed

text \<open>With the invariant, a due timeout finds both slots filled and does not throw.\<close>

lemma pending_ok_timeout:
  assumes "pending_ok s" "timeouts s = t # ts"
  shows "\<exists>s'. flipBack (s\<lparr>timeouts := ts\<rparr>) = Normal s' \<and> pending_ok s'"
proof -
  from assms obtain a b where ab: "firstCard s = Some a" "secondCard s = Some b" "ts = []"
    by (auto simp: pending_ok_def split: if_splits)
  then show ?thesis
    by (simp add: flipBack_def Let_def pending_ok_def)
qed

lemma pending_ok_step:
  assumes "pending_ok s" "\<not> is_reset e"
  shows "\<exists>s'. page_of (step rnd now e s) = Some s' \<and> pending_ok s'
           \<and> (e = TimeoutFires \<longrightarrow> step rnd now e s = Normal s')"
proof (cases e)
  case (CardClick i)
  obtain s' where "page_of (flipCard now i s) = Some s'"
    using flipCard_game_step by blast
  then show ?thesis
    using CardClick assms(1) pending_ok_flipCard [OF assms(1)] by (auto simp: boardClick_def)
next
  case PauseClick
  have "pending_ok (pauseGame now s)"
    by (rule pending_ok_same [OF _ _ _ _ assms(1)]) (simp_all add: pauseGame_def)
  moreover have "pending_ok (resumeGame now s)"
    by (rule pending_ok_same [OF _ _ _ _ assms(1)]) (simp_all add: resumeGame_def)
  ultimately show ?thesis using PauseClick assms(1) by auto
next
  case TimeoutFires
  show ?thesis
  proof (cases "timeouts s")
    case Nil
    then show ?thesis using TimeoutFires assms(1) by simp
  next
    case (Cons t ts)
    from pending_ok_timeout [OF assms(1) Cons]
    show ?thesis using TimeoutFires Cons assms(1) by auto
  qed
next
  case IntervalTick
  have "pending_ok (tickTimer now s)" by (rule pending_ok_same [OF _ _ _ _ assms(1)]) simp_all
  then show ?thesis using IntervalTick assms(1) by auto
qed (use assms in simp_all)

lemma pending_ok_startGame:
  "timeouts s = [] \<Longrightarrow> page_of (startGame rnd now s) = Some s' \<Longrightarrow> pending_ok s'"
  by (auto simp: startGame_def Let_def pending_ok_def split: option.splits)

lemma pending_ok_prepareGame:
  "timeouts s = [] \<Longrightarrow> page_of (prepareGame rnd now s) = Some s' \<Longrightarrow> pending_ok s'"
  by (auto simp: prepareGame_def Let_def pending_ok_def split: option.splits)

lemma pending_ok_init: "init rnd now d store = Some s \<Longrightarrow> pending_ok s"
proof -
  assume "init rnd now d store = Some s"
  then obtain s1 where s1: "loadBestScores (initial_page d store) = Some s1"
      "page_of (prepareGame rnd now s1) = Some s"
    by (auto simp: init_def split: option.splits)
  then have "timeouts s1 = []"
    by (auto simp: loadBestScores_def initial_page_def split: option.splits)
  then show ?thesis using s1(2) by (rule pending_ok_prepareGame)
qed

subsection \<open>Starting and preparing a game\<close>

lemma startGame_started:
  assumes "random_ok rnd"
  shows "\<exists>s0. startGame rnd now s = Normal s0 \<and> gameStarted s0 \<and> \<not> paused s0
           \<and> matches s0 = 0 \<and> moves s0 = 0 \<and> difficulty s0 = difficulty s
           \<and> endGameCalls s0 = endGameCalls s \<and> timeouts s0 = timeouts s
           \<and> firstCard s0 = None \<and> secondCard s0 = None \<and> \<not> lockBoard s0
           \<and> length (cards s0) = length (deck s0)
           \<and> (timer_ok s \<longrightarrow> timer_ok s0)"
proof -
  let ?s3 = "updateStats (resetFlipState ((resetTimer now (hideWin s))\<lparr>moves := 0, matches := 0,
      gameStarted := True, paused := False\<rparr>))"
  obtain dk k' where g: "generateDeck rnd (randomCalls ?s3) (difficulty ?s3) = Some (dk, k')"
    using generateDeck_total [OF assms] by blast
  let ?s5 = "(renderBoard (?s3\<lparr>deck := dk, randomCalls := k'\<rparr>))\<lparr>boardDisabled := False,
      startBtnDisabled := True, restartBtnDisabled := False, pauseBtnDisabled := False,
      pauseBtnText := ''Pause''\<rparr>"
  have sg: "startGame rnd now s = Normal (startTimer now ?s5)"
    using g by (simp add: startGame_def Let_def)
  have tk: "timer_ok (startTimer now ?s5)" if "timer_ok s"
  proof (rule timer_ok_startTimer)
    have "timer_ok (hideWin s)" by (rule timer_ok_same [OF _ _ _ _ that]) simp_all
    from resetTimer_stops [OF this, of now]
    show "timerInterval ?s5 = None" "intervals ?s5 = []" by simp_all
  qed simp_all
  show ?thesis using sg tk by simp
qed

lemma prepareGame_prepared:
  assumes "random_ok rnd"
  shows "\<exists>s0. prepareGame rnd now s = Normal s0 \<and> \<not> gameStarted s0 \<and> \<not> paused s0
           \<and> matches s0 = 0 \<and> moves s0 = 0 \<and> difficulty s0 = difficulty s
           \<and> endGameCalls s0 = endGameCalls s \<and> timeouts s0 = timeouts s
           \<and> firstCard s0 = None \<and> secondCard s0 = None \<and> \<not> lockBoard s0
           \<and> length (cards s0) = length (deck s0)
           \<and> (timer_ok s \<longrightarrow> timer_ok s0)"
proof -
  let ?s3 = "updateStats (resetFlipState ((resetTimer now (hideWin s))\<lparr>moves := 0, matches := 0,
      gameStarted := False, paused := False\<rparr>))"
  obtain dk k' where g: "generateDeck rnd (randomCalls ?s3) (difficulty ?s3) = Some (dk, k')"
    using generateDeck_total [OF assms] by blast
  let ?s5 = "(renderBoard (?s3\<lparr>deck := dk, randomCalls := k'\<rparr>))\<lparr>boardDisabled := True,
      startBtnDisabled := False, restartBtnDisabled := True, pauseBtnDisabled := True,
      pauseBtnText := ''Pause''\<rparr>"
  have sg: "prepareGame rnd now s = Normal ?s5"
    using g by (simp add: prepareGame_def Let_def)
  have tk: "timer_ok ?s5" if "timer_ok s"
  proof -
    have "timer_ok (hideWin s)" by (rule timer_ok_same [OF _ _ _ _ that]) simp_all
    from resetTimer_stops [OF this, of now]
    show ?thesis by (simp add: timer_ok_def)
  qed
  show ?thesis using sg tk by simp
qed

text \<open>
  \<open>timer_ok\<close> holds when the script has loaded and after every event, whatever the
  event: it is an invariant of the page.
\<close>

lemma timer_ok_step:
  assumes "random_ok rnd" "timer_ok s"
  shows "\<exists>s'. page_of (step rnd now e s) = Some s' \<and> timer_ok s'"
proof (cases e)
  case (CardClick i)
  obtain s' where "page_of (flipCard now i s) = Some s'"
    using flipCard_game_step by blast
  then show ?thesis
    using CardClick timer_ok_flipCard [OF assms(2)] assms(2) by (auto simp: boardClick_def)
next
  case StartClick
  then show ?thesis using startGame_started [OF assms(1), of now s] assms(2) by auto
next
  case RestartClick
  then show ?thesis using startGame_started [OF assms(1), of now s] assms(2) by auto
next
  case PauseClick
  then show ?thesis
    using timer_ok_pauseGame [OF assms(2)] timer_ok_resumeGame [OF assms(2)] assms(2) by auto
next
  case (DifficultyChange d)
  have "timer_ok (s\<lparr>difficulty := d\<rparr>)" by (rule timer_ok_same [OF _ _ _ _ assms(2)]) simp_all
  then show ?thesis
    using DifficultyChange prepareGame_prepared [OF assms(1), of now "s\<lparr>difficulty := d\<rparr>"] by auto
next
  case TimeoutFires
  show ?thesis
  proof (cases "timeouts s")
    case Nil
    then show ?thesis using TimeoutFires assms(2) by simp
  next
    case (Cons t ts)
    have t: "timer_ok (s\<lparr>timeouts := ts\<rparr>)" by (rule timer_ok_same [OF _ _ _ _ assms(2)]) simp_all
    obtain s' where "page_of (flipBack (s\<lparr>timeouts := ts\<rparr>)) = Some s'"
      using flipBack_game_step by blast
    then show ?thesis
      using TimeoutFires Cons timer_ok_flipBack [OF t] assms(2) by auto
  qed
next
  case IntervalTick
  have "timer_ok (tickTimer now s)" by (rule timer_ok_same [OF _ _ _ _ assms(2)]) simp_all
  then show ?thesis using IntervalTick assms(2) by auto
qed

lemma timer_ok_init:
  assumes "random_ok rnd" "loadBestScores (initial_page d store) = Some s"
  shows "\<exists>s0. init rnd now d store = Some s0 \<and> timer_ok s0"
proof -
  obtain b where "s = (initial_page d store)\<lparr>bestScores := b\<rparr>"
    using assms(2) by (auto simp: loadBestScores_def split: option.splits)
  then have "timer_ok s" by (simp add: timer_ok_def initial_page_def)
  then show ?thesis
    using prepareGame_prepared [OF assms(1), of now s] assms(2) by (auto simp: init_def)
qed

subsection \<open>Pause and resume\<close>

text \<open>
  Claim C8. \<open>pauseGame\<close> changes nothing when the game is not started or already
  paused, \<open>resumeGame\<close> nothing when it is not started or not paused. In a page whose
  timer agrees with its flags, pausing a running game adds the current segment
  \<open>now - startTime\<close> to \<open>elapsedMs\<close> and leaves no interval running, so that no tick
  reaches the display; resuming a paused game starts a segment at \<open>now\<close> under a new
  interval and keeps \<open>elapsedMs\<close>, so that a tick at time \<open>t\<close> shows the accumulated
  time plus \<open>t - now\<close>.
\<close>

theorem pause_resume:
  "(\<not> gameStarted s \<or> paused s \<longrightarrow> pauseGame now s = s)
   \<and> (\<not> gameStarted s \<or> \<not> paused s \<longrightarrow> resumeGame now s = s)
   \<and> (timer_ok s \<and> gameStarted s \<and> \<not> paused s \<longrightarrow>
        paused (pauseGame now s)
        \<and> elapsedMs (pauseGame now s) = elapsedMs s + (now - startTime s)
        \<and> timerInterval (pauseGame now s) = None \<and> intervals (pauseGame now s) = []
        \<and> boardDisabled (pauseGame now s) \<and> timer_ok (pauseGame now s)
        \<and> (\<forall>t. step rnd t IntervalTick (pauseGame now s) = Normal (pauseGame now s)))
   \<and> (timer_ok s \<and> gameStarted s \<and> paused s \<longrightarrow>
        \<not> paused (resumeGame now s)
        \<and> startTime (resumeGame now s) = now
        \<and> elapsedMs (resumeGame now s) = elapsedMs s
        \<and> timerInterval (resumeGame now s) = Some (Suc (timerIds s))
        \<and> intervals (resumeGame now s) = [Suc (timerIds s)]
        \<and> \<not> boardDisabled (resumeGame now s) \<and> timer_ok (resumeGame now s)
        \<and> (\<forall>t. timeText (tickTimer t (resumeGame now s))
                 = formatTime ((elapsedMs s + (t - now)) div 1000)))"
proof (intro conjI impI)
  show "pauseGame now s = s" if "\<not> gameStarted s \<or> paused s"
    using that by (auto simp: pauseGame_def)
  show "resumeGame now s = s" if "\<not> gameStarted s \<or> \<not> paused s"
    using that by (auto simp: resumeGame_def)
next
  assume a: "timer_ok s \<and> gameStarted s \<and> \<not> paused s"
  then obtain h where h: "timerInterval s = Some h" "0 < h" "intervals s = [h]"
    by (auto simp: timer_ok_def split: option.splits)
  have p: "pauseGame now s =
      s\<lparr>paused := True, intervals := [], timerInterval := None,
        elapsedMs := elapsedMs s + (now - startTime s),
        boardDisabled := True, pauseBtnText := ''Resume''\<rparr>"
    using a h by (simp add: pauseGame_def stopTimer_def)
  show "paused (pauseGame now s)" by (simp add: p)
  show "elapsedMs (pauseGame now s) = elapsedMs s + (now - startTime s)" by (simp add: p)
  show "timerInterval (pauseGame now s) = None" by (simp add: p)
  show "intervals (pauseGame now s) = []" by (simp add: p)
  show "boardDisabled (pauseGame now s)" by (simp add: p)
  show "timer_ok (pauseGame now s)" by (simp add: p timer_ok_def)
  show "\<forall>t. step rnd t IntervalTick (pauseGame now s) = Normal (pauseGame now s)"
    by (simp add: p)
next
  assume a: "timer_ok s \<and> gameStarted s \<and> paused s"
  then have n: "timerInterval s = None" "intervals s = []"
    by (auto simp: timer_ok_def)
  let ?r = "resumeGame now s"
  have r: "?r = startTimer now (s\<lparr>paused := False, boardDisabled := False, pauseBtnText := ''Pause''\<rparr>)"
    using a by (simp add: resumeGame_def)
  show "\<not> paused ?r" by (simp add: r)
  show "startTime ?r = now" by (simp add: r)
  show "elapsedMs ?r = elapsedMs s" by (simp add: r)
  show "timerInterval ?r = Some (Suc (timerIds s))" by (simp add: r)
  show "intervals ?r = [Suc (timerIds s)]" by (simp add: r n)
  show "\<not> boardDisabled ?r" by (simp add: r)
  show "timer_ok ?r" using a by (simp add: r n timer_ok_def)
  show "\<forall>t. timeText (tickTimer t ?r) = formatTime ((elapsedMs s + (t - now)) div 1000)"
    by (simp add: r)
qed

lemma sample_started_facts:
  "timer_ok sample_started \<and> gameStarted sample_started \<and> \<not> paused sample_started
   \<and> elapsedMs sample_started = 0 \<and> startTime sample_started = 2000"
  by code_simp

lemma sample_paused_facts:
  "timer_ok sample_paused \<and> gameStarted sample_paused \<and> paused sample_paused
   \<and> elapsedMs sample_paused = 3000"
  by code_simp

theorem pause_resume_witness:
  "timer_ok sample_started \<and> gameStarted sample_started \<and> \<not> paused sample_started
   \<and> elapsedMs (pauseGame 5000 sample_started) = 3000
   \<and> intervals (pauseGame 5000 sample_started) = []
   \<and> timer_ok sample_paused \<and> gameStarted sample_paused \<and> paused sample_paused
   \<and> startTime (resumeGame 8000 sample_paused) = 8000
   \<and> elapsedMs (resumeGame 8000 sample_paused) = 3000
   \<and> pauseGame 9000 sample_paused = sample_paused"
  using pause_resume [of sample_started 5000 sample_draws]
    pause_resume [of sample_paused 8000 sample_draws]
    pause_resume [of sample_paused 9000 sample_draws]
    sample_started_facts sample_paused_facts
  by simp

subsection \<open>Resolving a pair\<close>

lemma checkMatch_match:
  assumes "firstCard s = Some a" "secondCard s = Some b"
    and "a < length (deck s)" "b < length (deck s)" "length (cards s) = length (deck s)"
    and "name (deck s ! a) = name (deck s ! b)"
  shows "\<exists>s'. checkMatch now s = Normal s' \<and> matches s' = matches s + 1
           \<and> is_matched (cards s' ! a) \<and> is_matched (cards s' ! b)
           \<and> firstCard s' = None \<and> secondCard s' = None \<and> \<not> lockBoard s'
           \<and> timeouts s' = timeouts s \<and> moves s' = moves s"
  using assms
  by (simp add: checkMatch_def Let_def set_matched_def resetFlipState_def updateStats_def
      nth_list_update)

lemma checkMatch_mismatch:
  assumes "firstCard s = Some a" "secondCard s = Some b"
    and "a < length (deck s)" "b < length (deck s)" "length (cards s) = length (deck s)"
    and "name (deck s ! a) \<noteq> name (deck s ! b)"
  shows "checkMatch now s =
           Normal (s\<lparr>lockBoard := True, timeouts := timeouts s @ [now + 900],
                     timerIds := Suc (timerIds s)\<rparr>)"
  using assms by (simp add: checkMatch_def)

lemma flipBack_both:
  assumes "firstCard s = Some a" "secondCard s = Some b"
    and "a < length (cards s)" "b < length (cards s)"
  shows "\<exists>s'. flipBack s = Normal s'
           \<and> \<not> is_flipped (cards s' ! a) \<and> \<not> is_flipped (cards s' ! b)
           \<and> firstCard s' = None \<and> secondCard s' = None \<and> \<not> lockBoard s'
           \<and> timeouts s' = timeouts s \<and> matches s' = matches s \<and> moves s' = moves s
           \<and> deck s' = deck s \<and> length (cards s') = length (cards s)"
  using assms
  by (simp add: flipBack_def Let_def set_flipped_def resetFlipState_def nth_list_update)

lemma checkMatch_resolved:
  assumes "firstCard s = Some a" "secondCard s = Some b"
    and "a < length (deck s)" "b < length (deck s)" "length (cards s) = length (deck s)"
  shows "(name (deck s ! a) = name (deck s ! b) \<longrightarrow>
           (\<exists>s'. checkMatch now s = Normal s' \<and> matches s' = matches s + 1
              \<and> is_matched (cards s' ! a) \<and> is_matched (cards s' ! b)
              \<and> firstCard s' = None \<and> secondCard s' = None \<and> \<not> lockBoard s'
              \<and> timeouts s' = timeouts s))
       \<and> (name (deck s ! a) \<noteq> name (deck s ! b) \<longrightarrow>
           (\<exists>s'. checkMatch now s = Normal s' \<and> lockBoard s' \<and> matches s' = matches s
              \<and> cards s' = cards s \<and> firstCard s' = Some a \<and> secondCard s' = Some b
              \<and> timeouts s' = timeouts s @ [now + 900]
              \<and> (\<forall>t i. flipCard t i s' = Normal s')
              \<and> (\<exists>s''. flipBack s' = Normal s''
                    \<and> \<not> is_flipped (cards s'' ! a) \<and> \<not> is_flipped (cards s'' ! b)
                    \<and> firstCard s'' = None \<and> secondCard s'' = None \<and> \<not> lockBoard s'')
              \<and> (timeouts s = [] \<longrightarrow>
                   (\<forall>t < now + 900. step rnd t TimeoutFires s' = Normal s')
                 \<and> (\<forall>t \<ge> now + 900. \<exists>s''. step rnd t TimeoutFires s' = Normal s''
                        \<and> \<not> is_flipped (cards s'' ! a) \<and> \<not> is_flipped (cards s'' ! b)
                        \<and> firstCard s'' = None \<and> secondCard s'' = None \<and> \<not> lockBoard s''
                        \<and> timeouts s'' = []))))"
proof (intro conjI impI)
  assume "name (deck s ! a) = name (deck s ! b)"
  from checkMatch_match [OF assms this, of now]
  show "\<exists>s'. checkMatch now s = Normal s' \<and> matches s' = matches s + 1
              \<and> is_matched (cards s' ! a) \<and> is_matched (cards s' ! b)
              \<and> firstCard s' = None \<and> secondCard s' = None \<and> \<not> lockBoard s'
              \<and> timeouts s' = timeouts s"
    by blast
next
  assume ne: "name (deck s ! a) \<noteq> name (deck s ! b)"
  let ?s' = "s\<lparr>lockBoard := True, timeouts := timeouts s @ [now + 900],
                timerIds := Suc (timerIds s)\<rparr>"
  have cm: "checkMatch now s = Normal ?s'"
    by (rule checkMatch_mismatch [OF assms ne])
  have lock: "\<forall>t i. flipCard t i ?s' = Normal ?s'"
    by (simp add: flipCard_def)
  have ab: "a < length (cards s)" "b < length (cards s)" using assms by simp_all
  have fb: "\<exists>s''. flipBack ?s' = Normal s''
                    \<and> \<not> is_flipped (cards s'' ! a) \<and> \<not> is_flipped (cards s'' ! b)
                    \<and> firstCard s'' = None \<and> secondCard s'' = None \<and> \<not> lockBoard s''"
    using flipBack_both [of ?s' a b] assms(1,2) ab by auto
  have ev: "timeouts s = [] \<longrightarrow>
       (\<forall>t < now + 900. step rnd t TimeoutFires ?s' = Normal ?s')
     \<and> (\<forall>t \<ge> now + 900. \<exists>s''. step rnd t TimeoutFires ?s' = Normal s''
            \<and> \<not> is_flipped (cards s'' ! a) \<and> \<not> is_flipped (cards s'' ! b)
            \<and> firstCard s'' = None \<and> secondCard s'' = None \<and> \<not> lockBoard s''
            \<and> timeouts s'' = [])"
  proof (intro impI conjI allI)
    fix t assume "timeouts s = []" "t < now + 900"
    then show "step rnd t TimeoutFires ?s' = Normal ?s'" by simp
  next
    fix t assume e: "timeouts s = []" and t: "now + 900 \<le> t"
    have "step rnd t TimeoutFires ?s' = flipBack (?s'\<lparr>timeouts := []\<rparr>)"
      using e t by simp
    moreover have "\<exists>s''. flipBack (?s'\<lparr>timeouts := []\<rparr>) = Normal s''
           \<and> \<not> is_flipped (cards s'' ! a) \<and> \<not> is_flipped (cards s'' ! b)
           \<and> firstCard s'' = None \<and> secondCard s'' = None \<and> \<not> lockBoard s''
           \<and> timeouts s'' = []"
      using flipBack_both [of "?s'\<lparr>timeouts := []\<rparr>" a b] assms(1,2) ab by auto
    ultimately show "\<exists>s''. step rnd t TimeoutFires ?s' = Normal s''
            \<and> \<not> is_flipped (cards s'' ! a) \<and> \<not> is_flipped (cards s'' ! b)
            \<and> firstCard s'' = None \<and> secondCard s'' = None \<and> \<not> lockBoard s''
            \<and> timeouts s'' = []" by simp
  qed
  show "\<exists>s'. checkMatch now s = Normal s' \<and> lockBoard s' \<and> matches s' = matches s
              \<and> cards s' = cards s \<and> firstCard s' = Some a \<and> secondCard s' = Some b
              \<and> timeouts s' = timeouts s @ [now + 900]
              \<and> (\<forall>t i. flipCard t i s' = Normal s')
              \<and> (\<exists>s''. flipBack s' = Normal s''
                    \<and> \<not> is_flipped (cards s'' ! a) \<and> \<not> is_flipped (cards s'' ! b)
                    \<and> firstCard s'' = None \<and> secondCard s'' = None \<and> \<not> lockBoard s'')
              \<and> (timeouts s = [] \<longrightarrow>
                   (\<forall>t < now + 900. step rnd t TimeoutFires s' = Normal s')
                 \<and> (\<forall>t \<ge> now + 900. \<exists>s''. step rnd t TimeoutFires s' = Normal s''
                        \<and> \<not> is_flipped (cards s'' ! a) \<and> \<not> is_flipped (cards s'' ! b)
                        \<and> firstCard s'' = None \<and> secondCard s'' = None \<and> \<not> lockBoard s''
                        \<and> timeouts s'' = []))"
    apply (rule exI [of _ ?s'])
    using cm lock fb ev assms(1,2) by simp
qed

text \<open>A click on a second card that passes the guards of \<open>flipCard\<close> counts a move and resolves the pair.\<close>

lemma flipCard_second:
  assumes "gameStarted s" "\<not> paused s" "\<not> lockBoard s" "i < length (cards s)"
    and "\<not> is_matched (cards s ! i)" "\<not> is_flipped (cards s ! i)" "firstCard s = Some a"
  shows "flipCard now i s =
           checkMatch now (updateStats ((set_flipped i True s)\<lparr>secondCard := Some i,
              moves := moves s + 1\<rparr>))"
  using assms by (simp add: flipCard_def Let_def)

text \<open>
  What \<open>checkMatch\<close> does with both slots filled, on a page whose slots agree with the
  board. If the two cards have the same name it returns with the match count one higher,
  both cards matched, the slots empty and the board not locked. If not, it returns with
  the board locked, so that every \<open>flipCard\<close> does nothing, the slots and cards
  untouched and its callback due 900 ms later; the callback, run on that page, turns both
  cards face-down, empties the slots and unlocks the board. With no older callback
  pending the timeout does nothing before its 900 ms are over and does exactly that from
  then on. No older callback is pending in a game that no reset has interrupted
  (\<open>pending_ok\<close>); after a reset one can be, and then the delay is not kept: see the
  last subsection.
\<close>

lemma checkMatch_uninterrupted:
  assumes "board_ok s" "firstCard s = Some a" "secondCard s = Some b"
  shows "(name (deck s ! a) = name (deck s ! b) \<longrightarrow>
           (\<exists>s'. checkMatch now s = Normal s' \<and> matches s' = matches s + 1
              \<and> is_matched (cards s' ! a) \<and> is_matched (cards s' ! b)
              \<and> firstCard s' = None \<and> secondCard s' = None \<and> \<not> lockBoard s'
              \<and> timeouts s' = timeouts s))
       \<and> (name (deck s ! a) \<noteq> name (deck s ! b) \<longrightarrow>
           (\<exists>s'. checkMatch now s = Normal s' \<and> lockBoard s' \<and> matches s' = matches s
              \<and> cards s' = cards s \<and> firstCard s' = Some a \<and> secondCard s' = Some b
              \<and> timeouts s' = timeouts s @ [now + 900]
              \<and> (\<forall>t i. flipCard t i s' = Normal s')
              \<and> (\<exists>s''. flipBack s' = Normal s''
                    \<and> \<not> is_flipped (cards s'' ! a) \<and> \<not> is_flipped (cards s'' ! b)
                    \<and> firstCard s'' = None \<and> secondCard s'' = None \<and> \<not> lockBoard s'')
              \<and> (timeouts s = [] \<longrightarrow>
                   (\<forall>t < now + 900. step rnd t TimeoutFires s' = Normal s')
                 \<and> (\<forall>t \<ge> now + 900. \<exists>s''. step rnd t TimeoutFires s' = Normal s''
                        \<and> \<not> is_flipped (cards s'' ! a) \<and> \<not> is_flipped (cards s'' ! b)
                        \<and> firstCard s'' = None \<and> secondCard s'' = None \<and> \<not> lockBoard s''
                        \<and> timeouts s'' = []))))"
proof -
  have "a < length (deck s)" "b < length (deck s)" "length (cards s) = length (deck s)"
    using assms by (auto simp: board_ok_def)
  then show ?thesis by (rule checkMatch_resolved [OF assms(2,3)])
qed

lemma sample_deck:
  "map name (deck sample_started) =
     [''CPU'', ''CPU'', ''Diagram'', ''SQL'', ''Python'', ''Code'', ''Git'',
      ''Python'', ''Code'', ''Git'', ''SQL'', ''Diagram'']"
  by code_simp

lemma sample_second_mismatch:
  "firstCard (sample_second 2) = Some 0 \<and> secondCard (sample_second 2) = Some 2
   \<and> board_ok (sample_second 2)
   \<and> name (deck (sample_second 2) ! 0) \<noteq> name (deck (sample_second 2) ! 2)
   \<and> timeouts (sample_second 2) = [] \<and> matches (sample_second 2) = 0"
  by code_simp

lemma sample_second_match:
  "firstCard (sample_second 1) = Some 0 \<and> secondCard (sample_second 1) = Some 1
   \<and> board_ok (sample_second 1)
   \<and> name (deck (sample_second 1) ! 0) = name (deck (sample_second 1) ! 1)
   \<and> matches (sample_second 1) = 0"
  by code_simp

lemma checkMatch_uninterrupted_sample:
  "firstCard (sample_second 2) = Some 0 \<and> secondCard (sample_second 2) = Some 2
   \<and> name (deck (sample_second 2) ! 0) \<noteq> name (deck (sample_second 2) ! 2)
   \<and> (\<exists>s'. checkMatch 3500 (sample_second 2) = Normal s' \<and> lockBoard s'
         \<and> timeouts s' = [4400]
         \<and> (\<exists>s''. step sample_draws 4400 TimeoutFires s' = Normal s''
               \<and> \<not> is_flipped (cards s'' ! 0) \<and> \<not> is_flipped (cards s'' ! 2)
               \<and> \<not> lockBoard s''))
   \<and> firstCard (sample_second 1) = Some 0 \<and> secondCard (sample_second 1) = Some 1
   \<and> name (deck (sample_second 1) ! 0) = name (deck (sample_second 1) ! 1)
   \<and> (\<exists>s'. checkMatch 3100 (sample_second 1) = Normal s' \<and> matches s' = 1
         \<and> is_matched (cards s' ! 0) \<and> is_matched (cards s' ! 1) \<and> \<not> lockBoard s')"
proof -
  note m = sample_second_mismatch
  note e = sample_second_match
  have a: "\<exists>s'. checkMatch 3500 (sample_second 2) = Normal s' \<and> lockBoard s'
         \<and> timeouts s' = [4400]
         \<and> (\<exists>s''. step sample_draws 4400 TimeoutFires s' = Normal s''
               \<and> \<not> is_flipped (cards s'' ! 0) \<and> \<not> is_flipped (cards s'' ! 2)
               \<and> \<not> lockBoard s'')"
    using checkMatch_uninterrupted [of "sample_second 2" 0 2 3500 sample_draws] m
    by (simp add: m) blast
  have b: "\<exists>s'. checkMatch 3100 (sample_second 1) = Normal s' \<and> matches s' = 1
         \<and> is_matched (cards s' ! 0) \<and> is_matched (cards s' ! 1) \<and> \<not> lockBoard s'"
    using checkMatch_uninterrupted [of "sample_second 1" 0 1 3100 sample_draws] e
    by (simp add: e) blast
  show ?thesis using a b m e by simp
qed

subsection \<open>Best score\<close>

text \<open>
  Claim C5. At the end of a game the best score of the current difficulty, in memory and
  in \<^verbatim>\<open>localStorage\<close>, becomes the move count when the slot holds \<^verbatim>\<open>null\<close> or a
  number strictly above the move count; in every other case, and for the other difficulty
  always, both are left as they were.
\<close>

theorem endGame_best_score:
  "bestScores (endGame now s) =
     (if bestScores s (difficulty s) = Null
         \<or> (\<exists>b. bestScores s (difficulty s) = Num b \<and> int (moves s) < b)
      then (bestScores s)(difficulty s := Num (int (moves s)))
      else bestScores s)
   \<and> localStorage (endGame now s) =
     (if bestScores s (difficulty s) = Null
         \<or> (\<exists>b. bestScores s (difficulty s) = Num b \<and> int (moves s) < b)
      then (localStorage s)(storage_key (difficulty s) \<mapsto> show_nat (moves s))
      else localStorage s)"
  by (cases "bestScores s (difficulty s)")
     (simp_all add: endGame_def Let_def showWin_def maybeUpdateBestScore_def)

theorem endGame_best_score_witness:
  "bestScores (endGame 9000 (initial_page Easy Map.empty\<lparr>moves := 6\<rparr>)) Easy = Num 6
   \<and> bestScores (endGame 9000 (initial_page Easy Map.empty\<lparr>moves := 6\<rparr>)) Hard = Null
   \<and> localStorage (endGame 9000 (initial_page Easy Map.empty\<lparr>moves := 6\<rparr>)) ''mgBestMoves_easy''
       = Some ''6''"
proof -
  have "show_nat 6 = ''6''" by code_simp
  then show ?thesis
    using endGame_best_score [of 9000 "initial_page Easy Map.empty\<lparr>moves := 6\<rparr>"]
    by (simp add: initial_page_def storage_key_def)
qed

subsection \<open>Stopping the timer\<close>

text \<open>
  Claim C10. \<open>stopTimer\<close> with no timer running changes nothing, and a second
  \<open>stopTimer\<close> changes nothing more. So after a pause, a further stop, the end of the
  game or another pause adds nothing to \<open>elapsedMs\<close>; in particular not in a paused
  page whose timer agrees with its flags.
\<close>

theorem stopTimer_idempotent:
  "(no_handle (timerInterval s) \<longrightarrow> stopTimer now s = s)
   \<and> stopTimer t2 (stopTimer t1 s) = stopTimer t1 s
   \<and> (gameStarted s \<and> \<not> paused s \<longrightarrow>
        stopTimer t2 (pauseGame t1 s) = pauseGame t1 s
        \<and> elapsedMs (endGame t2 (pauseGame t1 s)) = elapsedMs (pauseGame t1 s)
        \<and> elapsedMs (pauseGame t2 (pauseGame t1 s)) = elapsedMs (pauseGame t1 s))
   \<and> (timer_ok s \<and> paused s \<longrightarrow>
        elapsedMs (stopTimer now s) = elapsedMs s \<and> elapsedMs (endGame now s) = elapsedMs s)"
  by (auto simp: stopTimer_def pauseGame_def endGame_def Let_def showWin_def timer_ok_def)


lemma sample_started_running: "gameStarted sample_started \<and> \<not> paused sample_started"
  by code_simp

theorem stopTimer_idempotent_witness:
  "gameStarted sample_started \<and> \<not> paused sample_started
   \<and> stopTimer 7000 (pauseGame 5000 sample_started) = pauseGame 5000 sample_started
   \<and> elapsedMs (endGame 7000 (pauseGame 5000 sample_started))
       = elapsedMs (pauseGame 5000 sample_started)"
  using stopTimer_idempotent [of sample_started 7000 7000 5000] sample_started_running
  by simp
subsection \<open>The end of a game\<close>

text \<open>
  Claim C4. Take a game from its start by \<open>startGame\<close> through any events other than a
  reset. The start itself does not call \<^verbatim>\<open>endGame\<close>. After the events \<^verbatim>\<open>endGame\<close>
  has been called once if the match count equals the pair count and not at all
  otherwise, and the game is still started exactly when pairs remain. Any further
  event calls \<^verbatim>\<open>endGame\<close> exactly when it takes the match count from below the pair
  count to the pair count, and then once; so the single call of a game happens at the
  step that finds the last pair, and never again.
\<close>

theorem endGame_once:
  assumes "random_ok rnd" and "\<forall>(t, e) \<in> set es. \<not> is_reset e"
  shows "\<exists>s0 s. startGame rnd t0 sp = Normal s0 \<and> endGameCalls s0 = endGameCalls sp
           \<and> run rnd es s0 = Some s
           \<and> endGameCalls s = endGameCalls sp + (if matches s = pairCount s then 1 else 0)
           \<and> (gameStarted s \<longleftrightarrow> matches s < pairCount s)
           \<and> (\<forall>t e. \<not> is_reset e \<longrightarrow>
                (\<exists>s'. page_of (step rnd t e s) = Some s'
                   \<and> endGameCalls s' = endGameCalls s +
                       (if matches s < pairCount s \<and> matches s' = pairCount s' then 1 else 0)))"
proof -
  from startGame_started [OF assms(1), of t0 sp]
  obtain s0 where s0: "startGame rnd t0 sp = Normal s0" "gameStarted s0" "matches s0 = 0"
      "endGameCalls s0 = endGameCalls sp" by blast
  have "0 < pairCount s0" by (cases "difficulty s0") (simp_all add: pairCount_def)
  then have og0: "one_game (endGameCalls sp) s0"
    using s0 by (simp add: one_game_def)
  from run_one_game [OF assms(2) og0, of rnd]
  obtain s where s: "run rnd es s0 = Some s" "one_game (endGameCalls sp) s" by blast
  have c: "endGameCalls s = endGameCalls sp + (if matches s = pairCount s then 1 else 0)"
    and g: "gameStarted s \<longleftrightarrow> matches s < pairCount s"
    using s(2) by (auto simp: one_game_def split: if_splits)
  have nxt: "\<exists>s'. page_of (step rnd t e s) = Some s'
                   \<and> endGameCalls s' = endGameCalls s +
                       (if matches s < pairCount s \<and> matches s' = pairCount s' then 1 else 0)"
    if "\<not> is_reset e" for t e
  proof -
    from step_game_step [OF that, of rnd t s]
    obtain s' where s': "page_of (step rnd t e s) = Some s'" "game_step s s'" by blast
    show ?thesis using s'(1) one_game_step(2) [OF s(2) s'(2)] by blast
  qed
  show ?thesis using s0(1,4) s(1) c g nxt by blast
qed

lemma winning_clicks_no_reset: "\<forall>(t, e) \<in> set winning_clicks. \<not> is_reset e"
  by (simp add: winning_clicks_def)

lemma sample_loaded_facts:
  "\<not> startBtnDisabled sample_loaded \<and> endGameCalls sample_loaded = 0"
  by code_simp

lemma sample_finished_facts:
  "matches sample_finished = 6 \<and> difficulty sample_finished = Easy
   \<and> \<not> gameStarted sample_finished"
  by code_simp

theorem endGame_once_witness:
  "random_ok sample_draws
   \<and> (\<exists>s0 s. startGame sample_draws 2000 sample_loaded = Normal s0
         \<and> run sample_draws winning_clicks s0 = Some s
         \<and> matches s = 6 \<and> endGameCalls s = 1)"
proof -
  from endGame_once [OF sample_draws_ok winning_clicks_no_reset, of 2000 sample_loaded]
  obtain s0 s where s: "startGame sample_draws 2000 sample_loaded = Normal s0"
      "run sample_draws winning_clicks s0 = Some s"
      "endGameCalls s = endGameCalls sample_loaded + (if matches s = pairCount s then 1 else 0)"
    by blast
  have "sample_started = s0"
    using s(1) sample_loaded_facts by (simp add: sample_started_def)
  then have "sample_finished = s" using s(2) by (simp add: sample_finished_def)
  then have "matches s = 6" "pairCount s = 6"
    using sample_finished_facts by (auto simp: pairCount_def)
  then show ?thesis using s sample_loaded_facts sample_draws_ok by auto
qed

subsection \<open>Where the script departs from its specification\<close>

text \<open>
  Claim C6. The store holds \<^verbatim>\<open>six\<close> under \<^verbatim>\<open>mgBestMoves_easy\<close>. Loading puts
  \<^verbatim>\<open>NaN\<close> into the easy slot, not \<^verbatim>\<open>null\<close>. A game then won in six moves calls
  \<^verbatim>\<open>endGame\<close> once and leaves the slot at \<^verbatim>\<open>NaN\<close> and the stored string as it was,
  where the same game on an empty store, whose slot is \<^verbatim>\<open>null\<close>, records 6.
\<close>

theorem malformed_best_is_kept:
  "(case init sample_draws 1000 Easy malformed_store of
      None \<Rightarrow> False
    | Some s0 \<Rightarrow>
        bestScores s0 Easy = NaN
        \<and> (case run sample_draws ((2000, StartClick) # winning_clicks) s0 of
              None \<Rightarrow> False
            | Some s \<Rightarrow>
                endGameCalls s = 1 \<and> moves s = 6 \<and> bestScores s Easy = NaN
                \<and> localStorage s ''mgBestMoves_easy'' = Some ''six''))
   \<and> bestScores sample_loaded Easy = Null
   \<and> bestScores sample_finished Easy = Num 6"
  by code_simp

text \<open>
  Claim C9. A mismatch at 3500 leaves a callback due at 4400; the restart button is
  clicked at 3800. The callback stays pending in the new game, whose slots are empty,
  and when it fires it throws on \<^verbatim>\<open>state.firstCard\<close>. If the player has turned card 5
  of the new game face-up at 4000, the callback turns that card face-down again before it
  throws on \<^verbatim>\<open>state.secondCard\<close>, and the slot keeps the card: the next click on card 5
  pairs the card with itself and counts a match.
\<close>

theorem stale_callback_after_restart:
  "(case run sample_draws restart_in_delay sample_loaded of
      None \<Rightarrow> False
    | Some s \<Rightarrow>
        gameStarted s \<and> timeouts s = [4400] \<and> firstCard s = None
        \<and> (case step sample_draws 4400 TimeoutFires s of TypeError s' \<Rightarrow> True | _ \<Rightarrow> False))
   \<and> (case run sample_draws (restart_in_delay @ [(4000, CardClick 5), (4400, TimeoutFires)])
            sample_loaded of
         None \<Rightarrow> False
       | Some s \<Rightarrow>
           firstCard s = Some 5 \<and> \<not> is_flipped (cards s ! 5)
           \<and> (case step sample_draws 5000 (CardClick 5) s of
                 Normal s' \<Rightarrow> matches s' = 1 \<and> map is_matched (cards s')
                     = [False, False, False, False, False, True, False, False, False, False, False, False]
               | _ \<Rightarrow> False))"
  by code_simp

text \<open>
  Claim C1. A mismatch at 3500 leaves a callback due at 4400; the restart button is
  clicked at 3800, and in the new game cards 0 and 2, which differ, are clicked at 3900
  and 4000. Their resolution locks the board and schedules a callback for 4900, behind the
  one left over. At 4400, 400 ms after the mismatch, the callback left over turns both
  cards face-down, empties the slots and unlocks the board; the callback of this
  resolution finds the slots empty at 4900 and throws. The fixed delay of 900 ms is not
  kept for this resolution.
\<close>

theorem mismatch_after_restart_unlocked_early:
  "(case run sample_draws (restart_in_delay @ [(3900, CardClick 0), (4000, CardClick 2)])
          sample_loaded of
      None \<Rightarrow> False
    | Some s \<Rightarrow>
        gameStarted s \<and> moves s = 1 \<and> matches s = 0
        \<and> firstCard s = Some 0 \<and> secondCard s = Some 2
        \<and> name (deck s ! 0) \<noteq> name (deck s ! 2)
        \<and> is_flipped (cards s ! 0) \<and> is_flipped (cards s ! 2)
        \<and> lockBoard s \<and> timeouts s = [4400, 4900]
        \<and> (case step sample_draws 4400 TimeoutFires s of
              Normal s1 \<Rightarrow>
                \<not> lockBoard s1 \<and> \<not> is_flipped (cards s1 ! 0) \<and> \<not> is_flipped (cards s1 ! 2)
                \<and> firstCard s1 = None \<and> secondCard s1 = None \<and> timeouts s1 = [4900]
                \<and> (case step sample_draws 4900 TimeoutFires s1 of
                      TypeError s2 \<Rightarrow> True
                    | _ \<Rightarrow> False)
            | _ \<Rightarrow> False))"
  by code_simp


end
